theory Spec2Isabelle
  imports Complex_Main "HOL-Library.List_Lexorder" "HOL-Library.Product_Lexorder"
begin

section \<open>Grid items and the ordering policy\<close>

text \<open>
  The extension (\<^verbatim>\<open>src/extension/extension.js\<close>) imports its comparator, its folder sort
  and its redisplay trampoline from \<^verbatim>\<open>./lib/AppGridHelper.js\<close>. That helper module is
  not among the sources, so the three functions it exports are modelled from the
  specification (sections 3 and 4.1); everything from the section on the shell onwards
  is translated from \<^verbatim>\<open>extension.js\<close> itself.
\<close>

text \<open>
  Modelled from the spec: the grid item and the ordering configuration of section 3. A
  missing \<^verbatim>\<open>displayName\<close> is \<open>None\<close>.
\<close>

datatype kind = App | Folder

record gridItem =
  itemId :: string
  kind :: kind
  displayName :: "string option"

datatype folderOrderPosition = First | Last | Default

text \<open>
  Modelled from the spec: the case-insensitive lexicographic comparison of section 4.1.
  Names are compared by the codes of their lower-cased characters; only the ASCII capitals
  have a lower-case partner among the byte-sized characters of \<^typ>\<open>string\<close>.
\<close>

definition toLowerCase :: "char \<Rightarrow> nat" where
  "toLowerCase c = (let n = of_char c in if 65 \<le> n \<and> n \<le> 90 then n + 32 else n)"

fun lexCompare :: "nat list \<Rightarrow> nat list \<Rightarrow> int" where
  "lexCompare [] [] = 0"
| "lexCompare [] (y # ys) = - 1"
| "lexCompare (x # xs) [] = 1"
| "lexCompare (x # xs) (y # ys) =
     (if x < y then - 1 else if y < x then 1 else lexCompare xs ys)"

text \<open>
  Modelled from the spec: the name comparison of \<^verbatim>\<open>compareItems\<close> in the missing
  \<^verbatim>\<open>lib/AppGridHelper.js\<close>: case-insensitive lexicographic comparison of
  \<^verbatim>\<open>displayName\<close>, a missing name sorting after all named items.
\<close>

definition compareNames :: "string option \<Rightarrow> string option \<Rightarrow> int" where
  "compareNames x y =
     (case x of
        None \<Rightarrow> (case y of None \<Rightarrow> 0 | Some t \<Rightarrow> 1)
      | Some s \<Rightarrow> (case y of None \<Rightarrow> - 1
                   | Some t \<Rightarrow> lexCompare (map toLowerCase s) (map toLowerCase t)))"

text \<open>
  Modelled from the spec: the rank of a folder in \<^verbatim>\<open>pinnedFolderIds\<close> used by the
  missing \<^verbatim>\<open>compareItems\<close>: the position of its first occurrence, and the length of
  the list (after all listed folders) for an identifier that is not listed.
\<close>

fun pinRank :: "string list \<Rightarrow> string \<Rightarrow> nat" where
  "pinRank [] i = 0"
| "pinRank (p # ps) i = (if p = i then 0 else Suc (pinRank ps i))"

text \<open>
  Modelled from the spec: \<^verbatim>\<open>compareItems(itemA, itemB, folderOrderPosition,
  pinnedFolderIds)\<close> of the missing \<^verbatim>\<open>lib/AppGridHelper.js\<close>, section 4.1. With
  \<^verbatim>\<open>First\<close> every folder precedes every app and with \<^verbatim>\<open>Last\<close> every folder follows
  every app; two folders are ordered by their pin rank; everything still tied is ordered
  by \<open>compareNames\<close>. With \<^verbatim>\<open>Default\<close> the kind is not looked at, apart from the pin
  rank of two folders.
\<close>

definition compareItems ::
  "gridItem \<Rightarrow> gridItem \<Rightarrow> folderOrderPosition \<Rightarrow> string list \<Rightarrow> int" where
  "compareItems a b pos pinned =
     (if pos \<noteq> Default \<and> kind a \<noteq> kind b then
        (if (kind a = Folder) = (pos = First) then - 1 else 1)
      else if kind a = Folder \<and> kind b = Folder
              \<and> pinRank pinned (itemId a) \<noteq> pinRank pinned (itemId b) then
        (if pinRank pinned (itemId a) < pinRank pinned (itemId b) then - 1 else 1)
      else compareNames (displayName a) (displayName b))"

text \<open>
  Modelled from the spec: the key by which the missing \<^verbatim>\<open>reorderFolderContents\<close>
  sorts the children of a folder. The key order is the order of \<open>compareNames\<close>
  (lemma \<open>compareNames_less\<close>): named children by their lower-cased name, unnamed ones
  last.
\<close>

definition nameKey :: "string option \<Rightarrow> bool \<times> nat list" where
  "nameKey n = (case n of None \<Rightarrow> (True, []) | Some s \<Rightarrow> (False, map toLowerCase s))"

text \<open>
  Modelled from the spec: a folder as \<^verbatim>\<open>reorderFolderContents\<close> sees it, with its
  stored child order and with the flag that says whether its contents are to be sorted.
\<close>

record folderEntry =
  folderId :: string
  sortContents :: bool
  children :: "gridItem list"

text \<open>
  Modelled from the spec: \<^verbatim>\<open>reorderFolderContents()\<close> of the missing
  \<^verbatim>\<open>lib/AppGridHelper.js\<close>: for every folder whose contents are to be sorted
  alphabetically, the stored child order is replaced by a stable case-insensitive sort
  of the children by \<^verbatim>\<open>displayName\<close>.
\<close>

definition sortFolder :: "folderEntry \<Rightarrow> folderEntry" where
  "sortFolder f =
     (if sortContents f
      then f\<lparr>children := sort_key (\<lambda>c. nameKey (displayName c)) (children f)\<rparr>
      else f)"

definition reorderFolderContents :: "folderEntry list \<Rightarrow> folderEntry list" where
  "reorderFolderContents fs = map sortFolder fs"

section \<open>The shell, as the extension sees it\<close>

text \<open>
  The extension runs inside the shell's single-threaded event loop. The model is a record
  of everything \<^verbatim>\<open>extension.js\<close> reads or writes: its own objects, the settings it
  reads, the signal connections and timeout sources it registers with the host, and the
  two method slots of the grid-display object (\<^verbatim>\<open>AppDisplay\<close>) that it overrides.
  Objects of class \<^verbatim>\<open>AppGridExtension\<close> live in a store, since the callbacks close over
  \<^verbatim>\<open>this\<close> and keep an object alive after \<^verbatim>\<open>disable()\<close> drops its reference.
\<close>

type_synonym addr = nat

datatype schema = ShellSchema | ExtensionSchema | FolderSchema

datatype emitter = SettingsObject schema addr | Overview | AppSystem | StateAdjustment

text \<open>The arrow functions handed to \<^verbatim>\<open>connect\<close>, each with the \<^verbatim>\<open>this\<close> it closes over.\<close>

datatype callback =
    GridReorderCallback addr
  | DragReorderCallback addr
  | FavouriteAppsCallback addr
  | SettingsChangedCallback addr
  | InstalledAppsCallback addr
  | FoldersChangedCallback addr
  | ReorderOnDisplayCallback addr

record connection =
  source :: emitter
  signal :: string
  handlerId :: nat
  handler :: callback

datatype timeoutCallback = ReorderGridTimeout addr

record timeoutSource =
  sourceId :: nat
  interval :: nat
  onTimeout :: timeoutCallback

datatype compareItemsImpl = HostCompareItems | PatchedCompareItems

datatype redisplayImpl = HostRedisplay | ReloadAppGrid

datatype error = NoSignalConnection emitter "nat option" | NullReference

text \<open>
  The fields of an \<^verbatim>\<open>AppGridExtension\<close>. A field that was never assigned is
  \<^verbatim>\<open>undefined\<close> in the source and \<open>None\<close> here; the source tests such fields with
  \<^verbatim>\<open>!= null\<close>, which \<^verbatim>\<open>undefined\<close> and \<^verbatim>\<open>null\<close> both fail. The two \<open>saved\<close>
  fields are the injection manager's table of saved originals, which has an entry for a
  method from its override until the next \<^verbatim>\<open>clear()\<close>.
\<close>

record appGridExtension =
  savedCompareItems :: "compareItemsImpl option"
  savedRedisplay :: "redisplayImpl option"
  currentlyUpdating :: bool
  reorderGridTimeoutId :: "nat option"
  reorderSignal :: "nat option"
  dragReorderSignal :: "nat option"
  favouriteAppsSignal :: "nat option"
  settingsChangedSignal :: "nat option"
  installedAppsChangedSignal :: "nat option"
  foldersChangedSignal :: "nat option"
  reorderOnDisplaySignal :: "nat option"

text \<open>The settings keys whose values the extension reads.\<close>

record settings =
  logging_enabled :: bool
  sort_folder_contents :: bool
  folder_order_position :: string
  folder_children :: "string list"

text \<open>
  The last five fields are not state of the source. \<open>hostRedisplays\<close>, \<open>gridReloads\<close>
  and \<open>folderSorts\<close> count the invocations of the host's own \<^verbatim>\<open>_redisplay\<close>, of
  \<^verbatim>\<open>reloadAppGrid\<close> and of \<^verbatim>\<open>reorderFolderContents\<close>; \<open>hostCompareItems\<close> is the
  host's own comparator; \<open>raisesOnStaleHandler\<close> says for which emitters the host's
  \<^verbatim>\<open>disconnect\<close> throws when the handler id is not connected, which the source leaves to
  the host.
\<close>

record shell =
  gridReorder :: "addr option"
  objects :: "addr \<Rightarrow> appGridExtension"
  nextObject :: addr
  loggingEnabled :: bool
  journal :: "string list"
  gsettings :: settings
  folders :: "folderEntry list"
  connections :: "connection list"
  nextHandlerId :: nat
  timeouts :: "timeoutSource list"
  nextSourceId :: nat
  compareItemsSlot :: compareItemsImpl
  redisplaySlot :: redisplayImpl
  updatingPages :: bool
  stateValue :: real
  hostRedisplays :: nat
  gridReloads :: nat
  folderSorts :: nat
  hostCompareItems :: "gridItem \<Rightarrow> gridItem \<Rightarrow> int"
  raisesOnStaleHandler :: "emitter \<Rightarrow> bool"

definition andThen :: "error + 'a \<Rightarrow> ('a \<Rightarrow> error + 'b) \<Rightarrow> error + 'b" where
  "andThen r f = (case r of Inl e \<Rightarrow> Inl e | Inr x \<Rightarrow> f x)"

definition thisUpdate :: "addr \<Rightarrow> (appGridExtension \<Rightarrow> appGridExtension) \<Rightarrow> shell \<Rightarrow> shell" where
  "thisUpdate a f w = w\<lparr>objects := (objects w)(a := f (objects w a))\<rparr>"

text \<open>\<^verbatim>\<open>logMessage\<close>: the time stamp of the source's log line is left out.\<close>

definition logMessage :: "string \<Rightarrow> shell \<Rightarrow> shell" where
  "logMessage message w =
     (if loggingEnabled w then w\<lparr>journal := journal w @ [message]\<rparr> else w)"

subsection \<open>The host's signal, timeout and override facilities\<close>

definition connect :: "emitter \<Rightarrow> string \<Rightarrow> callback \<Rightarrow> shell \<Rightarrow> nat \<times> shell" where
  "connect e s cb w =
     (nextHandlerId w,
      w\<lparr>connections := connections w
           @ [\<lparr>source = e, signal = s, handlerId = nextHandlerId w, handler = cb\<rparr>],
        nextHandlerId := Suc (nextHandlerId w)\<rparr>)"

definition isConnection :: "emitter \<Rightarrow> nat option \<Rightarrow> connection \<Rightarrow> bool" where
  "isConnection e i c = (source c = e \<and> Some (handlerId c) = i)"

definition disconnect :: "emitter \<Rightarrow> nat option \<Rightarrow> shell \<Rightarrow> error + shell" where
  "disconnect e i w =
     (if list_ex (isConnection e i) (connections w)
      then Inr (w\<lparr>connections := filter (\<lambda>c. \<not> isConnection e i c) (connections w)\<rparr>)
      else if raisesOnStaleHandler w e then Inl (NoSignalConnection e i)
      else Inr w)"

definition timeout_add :: "nat \<Rightarrow> timeoutCallback \<Rightarrow> shell \<Rightarrow> nat \<times> shell" where
  "timeout_add ms cb w =
     (nextSourceId w,
      w\<lparr>timeouts := timeouts w
           @ [\<lparr>sourceId = nextSourceId w, interval = ms, onTimeout = cb\<rparr>],
        nextSourceId := Suc (nextSourceId w)\<rparr>)"

text \<open>\<^verbatim>\<open>GLib.Source.remove\<close>: an id that names no source is left to a warning of the host.\<close>

definition source_remove :: "nat \<Rightarrow> shell \<Rightarrow> shell" where
  "source_remove i w = w\<lparr>timeouts := filter (\<lambda>t. sourceId t \<noteq> i) (timeouts w)\<rparr>"

definition overrideCompareItems :: "addr \<Rightarrow> compareItemsImpl \<Rightarrow> shell \<Rightarrow> shell" where
  "overrideCompareItems a f w =
     (thisUpdate a (\<lambda>obj. obj\<lparr>savedCompareItems := Some (compareItemsSlot w)\<rparr>) w)
       \<lparr>compareItemsSlot := f\<rparr>"

definition overrideRedisplay :: "addr \<Rightarrow> redisplayImpl \<Rightarrow> shell \<Rightarrow> shell" where
  "overrideRedisplay a f w =
     (thisUpdate a (\<lambda>obj. obj\<lparr>savedRedisplay := Some (redisplaySlot w)\<rparr>) w)
       \<lparr>redisplaySlot := f\<rparr>"

text \<open>\<^verbatim>\<open>InjectionManager.clear()\<close>: every saved original goes back, and the table is emptied.\<close>

definition clear :: "addr \<Rightarrow> shell \<Rightarrow> shell" where
  "clear a w =
     (let w1 = (case savedCompareItems (objects w a) of
                  None \<Rightarrow> w | Some f \<Rightarrow> w\<lparr>compareItemsSlot := f\<rparr>);
          w2 = (case savedRedisplay (objects w a) of
                  None \<Rightarrow> w1 | Some f \<Rightarrow> w1\<lparr>redisplaySlot := f\<rparr>)
      in thisUpdate a (\<lambda>obj. obj\<lparr>savedCompareItems := None, savedRedisplay := None\<rparr>) w2)"

subsection \<open>The grid-display object\<close>

text \<open>
  Modelled from the spec: \<^verbatim>\<open>reloadAppGrid\<close> of the missing \<^verbatim>\<open>lib/AppGridHelper.js\<close>,
  the trampoline into the host's full grid rebuild. The rebuild is the host's; the model
  records that it ran.
\<close>

definition reloadAppGrid :: "shell \<Rightarrow> shell" where
  "reloadAppGrid w = w\<lparr>gridReloads := Suc (gridReloads w)\<rparr>"

text \<open>\<^verbatim>\<open>AppDisplay._redisplay()\<close>: whatever is installed in the slot runs.\<close>

definition redisplay :: "shell \<Rightarrow> shell" where
  "redisplay w =
     (case redisplaySlot w of
        HostRedisplay \<Rightarrow> w\<lparr>hostRedisplays := Suc (hostRedisplays w)\<rparr>
      | ReloadAppGrid \<Rightarrow> reloadAppGrid w)"

text \<open>
  Modelled from the spec: how the missing \<^verbatim>\<open>compareItems\<close> reads the string stored under
  \<^verbatim>\<open>folder-order-position\<close>. Section 6 names the values \<^verbatim>\<open>top\<close>, \<^verbatim>\<open>bottom\<close> and
  \<^verbatim>\<open>default\<close>; section 7 sends every unknown value to \<^verbatim>\<open>Default\<close>.
\<close>

definition positionOfString :: "string \<Rightarrow> folderOrderPosition" where
  "positionOfString s =
     (if s = ''top'' then First else if s = ''bottom'' then Last else Default)"

text \<open>
  \<^verbatim>\<open>_patchedCompareItems\<close>: the closure holds the two settings objects, not their
  values, and reads both keys when it is called.
\<close>

definition patchedCompareItems :: "shell \<Rightarrow> gridItem \<Rightarrow> gridItem \<Rightarrow> int" where
  "patchedCompareItems w a b =
     (let folderPosition = folder_order_position (gsettings w);
          folderArray = folder_children (gsettings w)
      in compareItems a b (positionOfString folderPosition) folderArray)"

text \<open>\<^verbatim>\<open>AppDisplay._compareItems(a, b)\<close>: whatever is installed in the slot runs.\<close>

definition callCompareItems :: "shell \<Rightarrow> gridItem \<Rightarrow> gridItem \<Rightarrow> int" where
  "callCompareItems w a b =
     (case compareItemsSlot w of
        HostCompareItems \<Rightarrow> hostCompareItems w a b
      | PatchedCompareItems \<Rightarrow> patchedCompareItems w a b)"

text \<open>The call of \<^verbatim>\<open>AppGridHelper.reorderFolderContents()\<close>, on the stored folders.\<close>

definition callReorderFolderContents :: "shell \<Rightarrow> shell" where
  "callReorderFolderContents w =
     w\<lparr>folders := reorderFolderContents (folders w), folderSorts := Suc (folderSorts w)\<rparr>"

section \<open>The class AppGridExtension\<close>

text \<open>The constructor: the lock starts released, every other field is unassigned.\<close>

definition newAppGridExtension :: appGridExtension where
  "newAppGridExtension =
     \<lparr>savedCompareItems = None, savedRedisplay = None, currentlyUpdating = False,
      reorderGridTimeoutId = None, reorderSignal = None, dragReorderSignal = None,
      favouriteAppsSignal = None, settingsChangedSignal = None,
      installedAppsChangedSignal = None, foldersChangedSignal = None,
      reorderOnDisplaySignal = None\<rparr>"

definition patchShell :: "addr \<Rightarrow> shell \<Rightarrow> shell" where
  "patchShell a w =
     (let w1 = overrideCompareItems a PatchedCompareItems w;
          w2 = logMessage ''Patched item comparison'' w1;
          w3 = overrideRedisplay a ReloadAppGrid w2
      in logMessage ''Patched redisplay'' w3)"

definition unpatchShell :: "addr \<Rightarrow> shell \<Rightarrow> shell" where
  "unpatchShell a w =
     logMessage ''Unpatched redisplay'' (logMessage ''Unpatched item comparison'' (clear a w))"

text \<open>The body of the timeout callback of \<^verbatim>\<open>reorderGrid\<close>.\<close>

definition reorderGridTimeout :: "addr \<Rightarrow> shell \<Rightarrow> shell" where
  "reorderGridTimeout a w =
     thisUpdate a (\<lambda>obj. obj\<lparr>currentlyUpdating := False, reorderGridTimeoutId := None\<rparr>)
       (redisplay w)"

definition reorderGrid :: "addr \<Rightarrow> string \<Rightarrow> shell \<Rightarrow> shell" where
  "reorderGrid a logText w =
     (if \<not> currentlyUpdating (objects w a) \<and> \<not> updatingPages w then
        let w1 = thisUpdate a (\<lambda>obj. obj\<lparr>currentlyUpdating := True\<rparr>) w;
            w2 = logMessage logText w1;
            w3 = (if sort_folder_contents (gsettings w2)
                  then callReorderFolderContents (logMessage ''Reordering folder contents'' w2)
                  else w2);
            (i, w4) = timeout_add 100 (ReorderGridTimeout a) w3
        in thisUpdate a (\<lambda>obj. obj\<lparr>reorderGridTimeoutId := Some i\<rparr>) w4
      else w)"

subsection \<open>Listeners\<close>

definition waitForGridReorder :: "addr \<Rightarrow> shell \<Rightarrow> shell" where
  "waitForGridReorder a w =
     (let (i, w1) = connect (SettingsObject ShellSchema a) ''changed::app-picker-layout''
                      (GridReorderCallback a) w;
          w2 = thisUpdate a (\<lambda>obj. obj\<lparr>reorderSignal := Some i\<rparr>) w1;
          (j, w3) = connect Overview ''item-drag-end'' (DragReorderCallback a) w2
      in thisUpdate a (\<lambda>obj. obj\<lparr>dragReorderSignal := Some j\<rparr>) w3)"

definition reorderOnDisplay :: "addr \<Rightarrow> shell \<Rightarrow> shell" where
  "reorderOnDisplay a w =
     (let (i, w1) = connect StateAdjustment ''notify::value'' (ReorderOnDisplayCallback a) w
      in thisUpdate a (\<lambda>obj. obj\<lparr>reorderOnDisplaySignal := Some i\<rparr>) w1)"

definition waitForFavouritesChange :: "addr \<Rightarrow> shell \<Rightarrow> shell" where
  "waitForFavouritesChange a w =
     (let (i, w1) = connect (SettingsObject ShellSchema a) ''changed::favorite-apps''
                      (FavouriteAppsCallback a) w
      in thisUpdate a (\<lambda>obj. obj\<lparr>favouriteAppsSignal := Some i\<rparr>) w1)"

definition waitForSettingsChange :: "addr \<Rightarrow> shell \<Rightarrow> shell" where
  "waitForSettingsChange a w =
     (let (i, w1) = connect (SettingsObject ExtensionSchema a) ''changed''
                      (SettingsChangedCallback a) w
      in thisUpdate a (\<lambda>obj. obj\<lparr>settingsChangedSignal := Some i\<rparr>) w1)"

definition waitForFolderChange :: "addr \<Rightarrow> shell \<Rightarrow> shell" where
  "waitForFolderChange a w =
     (let (i, w1) = connect (SettingsObject FolderSchema a) ''changed::folder-children''
                      (FoldersChangedCallback a) w
      in thisUpdate a (\<lambda>obj. obj\<lparr>foldersChangedSignal := Some i\<rparr>) w1)"

definition waitForInstalledAppsChange :: "addr \<Rightarrow> shell \<Rightarrow> shell" where
  "waitForInstalledAppsChange a w =
     (let (i, w1) = connect AppSystem ''installed-changed'' (InstalledAppsCallback a) w
      in thisUpdate a (\<lambda>obj. obj\<lparr>installedAppsChangedSignal := Some i\<rparr>) w1)"

definition startListeners :: "addr \<Rightarrow> shell \<Rightarrow> shell" where
  "startListeners a w =
     (let w1 = waitForGridReorder a w;
          w2 = waitForFavouritesChange a w1;
          w3 = waitForSettingsChange a w2;
          w4 = waitForInstalledAppsChange a w3;
          w5 = waitForFolderChange a w4;
          w6 = reorderOnDisplay a w5
      in logMessage ''Connected to listeners'' w6)"

definition disconnectListeners :: "addr \<Rightarrow> shell \<Rightarrow> error + shell" where
  "disconnectListeners a w =
     andThen (disconnect (SettingsObject ShellSchema a) (reorderSignal (objects w a)) w) (\<lambda>w1.
     andThen (disconnect Overview (dragReorderSignal (objects w1 a)) w1) (\<lambda>w2.
     andThen (disconnect (SettingsObject ShellSchema a) (favouriteAppsSignal (objects w2 a)) w2) (\<lambda>w3.
     andThen (disconnect (SettingsObject ExtensionSchema a) (settingsChangedSignal (objects w3 a)) w3) (\<lambda>w4.
     andThen (disconnect AppSystem (installedAppsChangedSignal (objects w4 a)) w4) (\<lambda>w5.
     andThen (disconnect (SettingsObject FolderSchema a) (foldersChangedSignal (objects w5 a)) w5) (\<lambda>w6.
     andThen (case reorderOnDisplaySignal (objects w6 a) of
                None \<Rightarrow> Inr w6
              | Some i \<Rightarrow> disconnect StateAdjustment (Some i) w6) (\<lambda>w7.
     Inr (logMessage ''Disconnected from listeners''
            (case reorderGridTimeoutId (objects w7 a) of
               None \<Rightarrow> w7
             | Some i \<Rightarrow> source_remove i w7)))))))))"

subsection \<open>What the host does with the registered callbacks\<close>

text \<open>\<^verbatim>\<open>OverviewControls.ControlsState.APP_GRID\<close>, a constant of the host.\<close>

definition APP_GRID :: real where
  "APP_GRID = 2"

fun runCallback :: "callback \<Rightarrow> shell \<Rightarrow> shell" where
  "runCallback (GridReorderCallback a) w =
     reorderGrid a ''App grid layout changed, triggering reorder'' w"
| "runCallback (DragReorderCallback a) w =
     reorderGrid a ''App movement detected, triggering reorder'' w"
| "runCallback (FavouriteAppsCallback a) w =
     reorderGrid a ''Favourite apps changed, triggering reorder'' w"
| "runCallback (SettingsChangedCallback a) w =
     reorderGrid a ''Extension gsettings values changed, triggering reorder''
       (w\<lparr>loggingEnabled := logging_enabled (gsettings w)\<rparr>)"
| "runCallback (InstalledAppsCallback a) w =
     reorderGrid a ''Installed apps changed, triggering reorder'' w"
| "runCallback (FoldersChangedCallback a) w =
     reorderGrid a ''Folders changed, triggering reorder'' w"
| "runCallback (ReorderOnDisplayCallback a) w =
     (if stateValue w = APP_GRID
      then reorderGrid a ''App grid opened, triggering reorder'' w
      else w)"

text \<open>
  The signals the extension subscribes to. A change of a settings key reaches every
  settings object of its schema, under the detailed name \<^verbatim>\<open>changed::key\<close> and under
  the bare name \<^verbatim>\<open>changed\<close>.
\<close>

datatype signalEvent = Changed schema string | ItemDragEnd | InstalledChanged | NotifyValue

fun listensTo :: "signalEvent \<Rightarrow> connection \<Rightarrow> bool" where
  "listensTo (Changed s k) c =
     ((case source c of SettingsObject s' a \<Rightarrow> s' = s | _ \<Rightarrow> False)
      \<and> (signal c = ''changed'' \<or> signal c = ''changed::'' @ k))"
| "listensTo ItemDragEnd c = (source c = Overview \<and> signal c = ''item-drag-end'')"
| "listensTo InstalledChanged c = (source c = AppSystem \<and> signal c = ''installed-changed'')"
| "listensTo NotifyValue c = (source c = StateAdjustment \<and> signal c = ''notify::value'')"

definition emit :: "signalEvent \<Rightarrow> shell \<Rightarrow> shell" where
  "emit ev w = fold (\<lambda>c. runCallback (handler c)) (filter (listensTo ev) (connections w)) w"

text \<open>
  A timeout source fires: its callback runs, and since the callback returns
  \<^verbatim>\<open>GLib.SOURCE_REMOVE\<close> the source is destroyed. An id without a source fires nothing.
\<close>

definition dispatchTimeout :: "nat \<Rightarrow> shell \<Rightarrow> shell" where
  "dispatchTimeout i w =
     (case find (\<lambda>t. sourceId t = i) (timeouts w) of
        None \<Rightarrow> w
      | Some t \<Rightarrow> (case onTimeout t of
                    ReorderGridTimeout a \<Rightarrow> source_remove i (reorderGridTimeout a w)))"

section \<open>The class ExtensionManager\<close>

definition enable :: "shell \<Rightarrow> shell" where
  "enable w =
     (let a = nextObject w;
          w1 = w\<lparr>objects := (objects w)(a := newAppGridExtension), nextObject := Suc a,
                 gridReorder := Some a\<rparr>;
          w2 = w1\<lparr>loggingEnabled := logging_enabled (gsettings w1)\<rparr>;
          w3 = redisplay w2;
          w4 = patchShell a w3;
          w5 = startListeners a w4
      in reorderGrid a ''Reordering app grid'' w5)"

text \<open>Calling a method of \<^verbatim>\<open>this._gridReorder\<close> while it is \<^verbatim>\<open>null\<close> throws.\<close>

definition disable :: "shell \<Rightarrow> error + shell" where
  "disable w =
     (case gridReorder w of
        None \<Rightarrow> Inl NullReference
      | Some a \<Rightarrow>
          andThen (disconnectListeners a w) (\<lambda>w1.
          Inr ((unpatchShell a w1)\<lparr>gridReorder := None\<rparr>)))"

section \<open>The event loop\<close>

text \<open>
  What can happen to the extension from outside: the host enables or disables it, a
  subscribed signal is emitted, a settings key the extension reads is written (which also
  emits the key's change signal), the overview's state adjustment takes a new value, the
  host starts or ends a page update of its own, or a timeout source comes due.
\<close>

datatype event =
    Enable
  | Disable
  | Emit signalEvent
  | SetLoggingEnabled bool
  | SetSortFolderContents bool
  | SetFolderOrderPosition string
  | SetFolderChildren "string list"
  | SetStateValue real
  | SetUpdatingPages bool
  | Timeout nat

fun step :: "event \<Rightarrow> shell \<Rightarrow> error + shell" where
  "step Enable w = Inr (enable w)"
| "step Disable w = disable w"
| "step (Emit ev) w = Inr (emit ev w)"
| "step (SetLoggingEnabled b) w =
     Inr (emit (Changed ExtensionSchema ''logging-enabled'')
            (w\<lparr>gsettings := (gsettings w)\<lparr>logging_enabled := b\<rparr>\<rparr>))"
| "step (SetSortFolderContents b) w =
     Inr (emit (Changed ExtensionSchema ''sort-folder-contents'')
            (w\<lparr>gsettings := (gsettings w)\<lparr>sort_folder_contents := b\<rparr>\<rparr>))"
| "step (SetFolderOrderPosition p) w =
     Inr (emit (Changed ExtensionSchema ''folder-order-position'')
            (w\<lparr>gsettings := (gsettings w)\<lparr>folder_order_position := p\<rparr>\<rparr>))"
| "step (SetFolderChildren ids) w =
     Inr (emit (Changed FolderSchema ''folder-children'')
            (w\<lparr>gsettings := (gsettings w)\<lparr>folder_children := ids\<rparr>\<rparr>))"
| "step (SetStateValue v) w = Inr (emit NotifyValue (w\<lparr>stateValue := v\<rparr>))"
| "step (SetUpdatingPages b) w = Inr (w\<lparr>updatingPages := b\<rparr>)"
| "step (Timeout i) w = Inr (dispatchTimeout i w)"

fun run :: "event list \<Rightarrow> shell \<Rightarrow> error + shell" where
  "run [] w = Inr w"
| "run (e # es) w = andThen (step e w) (run es)"

section \<open>Shapes of the shell used in the proofs\<close>

text \<open>
  The seven connections made by \<^verbatim>\<open>startListeners\<close> for the object at \<open>a\<close>, when the
  host hands out the handler ids \<open>n\<close> to \<open>n + 6\<close>; the handler ids as
  \<^verbatim>\<open>startListeners\<close> stores them; and the one timeout source of a reorder in flight.
\<close>

definition listenersOf :: "addr \<Rightarrow> nat \<Rightarrow> connection list" where
  "listenersOf a n =
     [\<lparr>source = SettingsObject ShellSchema a, signal = ''changed::app-picker-layout'',
        handlerId = n, handler = GridReorderCallback a\<rparr>,
      \<lparr>source = Overview, signal = ''item-drag-end'',
        handlerId = n + 1, handler = DragReorderCallback a\<rparr>,
      \<lparr>source = SettingsObject ShellSchema a, signal = ''changed::favorite-apps'',
        handlerId = n + 2, handler = FavouriteAppsCallback a\<rparr>,
      \<lparr>source = SettingsObject ExtensionSchema a, signal = ''changed'',
        handlerId = n + 3, handler = SettingsChangedCallback a\<rparr>,
      \<lparr>source = AppSystem, signal = ''installed-changed'',
        handlerId = n + 4, handler = InstalledAppsCallback a\<rparr>,
      \<lparr>source = SettingsObject FolderSchema a, signal = ''changed::folder-children'',
        handlerId = n + 5, handler = FoldersChangedCallback a\<rparr>,
      \<lparr>source = StateAdjustment, signal = ''notify::value'',
        handlerId = n + 6, handler = ReorderOnDisplayCallback a\<rparr>]"

definition pendingOf :: "addr \<Rightarrow> nat option \<Rightarrow> timeoutSource list" where
  "pendingOf a t =
     (case t of
        None \<Rightarrow> []
      | Some i \<Rightarrow> [\<lparr>sourceId = i, interval = 100, onTimeout = ReorderGridTimeout a\<rparr>])"

definition subscribed :: "addr \<Rightarrow> nat \<Rightarrow> appGridExtension \<Rightarrow> appGridExtension" where
  "subscribed a n obj = obj\<lparr>reorderSignal := Some n, dragReorderSignal := Some (n + 1),
      favouriteAppsSignal := Some (n + 2), settingsChangedSignal := Some (n + 3),
      installedAppsChangedSignal := Some (n + 4), foldersChangedSignal := Some (n + 5),
      reorderOnDisplaySignal := Some (n + 6)\<rparr>"

text \<open>
  What \<open>reorderGrid\<close> does to the shell once it has logged and sorted: the lock is
  taken and the timeout source registered (lemma \<open>reorderGrid_idle\<close>).
\<close>

definition scheduled :: "addr \<Rightarrow> shell \<Rightarrow> shell" where
  "scheduled a w =
     w\<lparr>objects := (objects w)(a := (objects w a)
           \<lparr>currentlyUpdating := True, reorderGridTimeoutId := Some (nextSourceId w)\<rparr>),
       timeouts := timeouts w @ pendingOf a (Some (nextSourceId w)),
       nextSourceId := Suc (nextSourceId w)\<rparr>"

text \<open>
  Two kinds of shell. In a \<open>quiet\<close> shell the extension is disabled: the manager
  holds no controller, the host holds no connection and no timeout source of the
  extension, and the grid display has its own two methods. In a shell \<open>running\<close> the
  controller at \<open>a\<close>, the manager holds that controller, the host holds exactly its
  seven connections (with the handler ids the controller stored) and exactly the timeout
  source of its reorder in flight, if there is one, the lock is taken exactly while that
  source is pending, and the grid display is patched. \<open>enable\<close> leads from the first
  kind to the second, \<open>disable\<close> back, and the host's other events stay within a kind
  (lemmas \<open>runningAt_enable\<close>, \<open>quiet_disable\<close>, \<open>step_running\<close>, \<open>step_quiet\<close>).
\<close>

definition quiet :: "shell \<Rightarrow> bool" where
  "quiet w \<longleftrightarrow>
     gridReorder w = None \<and> connections w = [] \<and> timeouts w = []
     \<and> compareItemsSlot w = HostCompareItems \<and> redisplaySlot w = HostRedisplay"

definition runningAt :: "addr \<Rightarrow> nat \<Rightarrow> shell \<Rightarrow> bool" where
  "runningAt a n w \<longleftrightarrow>
     gridReorder w = Some a \<and> a < nextObject w
     \<and> reorderSignal (objects w a) = Some n
     \<and> dragReorderSignal (objects w a) = Some (n + 1)
     \<and> favouriteAppsSignal (objects w a) = Some (n + 2)
     \<and> settingsChangedSignal (objects w a) = Some (n + 3)
     \<and> installedAppsChangedSignal (objects w a) = Some (n + 4)
     \<and> foldersChangedSignal (objects w a) = Some (n + 5)
     \<and> reorderOnDisplaySignal (objects w a) = Some (n + 6)
     \<and> connections w = listenersOf a n
     \<and> timeouts w = pendingOf a (reorderGridTimeoutId (objects w a))
     \<and> currentlyUpdating (objects w a) = (reorderGridTimeoutId (objects w a) \<noteq> None)
     \<and> savedCompareItems (objects w a) = Some HostCompareItems
     \<and> savedRedisplay (objects w a) = Some HostRedisplay
     \<and> compareItemsSlot w = PatchedCompareItems \<and> redisplaySlot w = ReloadAppGrid"

definition running :: "addr \<Rightarrow> shell \<Rightarrow> bool" where
  "running a w =
     (case reorderSignal (objects w a) of None \<Rightarrow> False | Some n \<Rightarrow> runningAt a n w)"

text \<open>The object a callback closes over.\<close>

fun callbackThis :: "callback \<Rightarrow> addr" where
  "callbackThis (GridReorderCallback a) = a"
| "callbackThis (DragReorderCallback a) = a"
| "callbackThis (FavouriteAppsCallback a) = a"
| "callbackThis (SettingsChangedCallback a) = a"
| "callbackThis (InstalledAppsCallback a) = a"
| "callbackThis (FoldersChangedCallback a) = a"
| "callbackThis (ReorderOnDisplayCallback a) = a"

text \<open>
  What remains of the shell after the timeout callback (\<open>released\<close>), after
  \<open>disconnectListeners\<close> (\<open>detached\<close>) and after \<open>InjectionManager.clear()\<close>
  (\<open>restored\<close>) in a running shell, log lines apart; and the shell as \<open>enable\<close> has
  it after the constructor and the read of \<open>logging-enabled\<close> (\<open>constructed\<close>).
\<close>

definition released :: "addr \<Rightarrow> shell \<Rightarrow> shell" where
  "released a w =
     w\<lparr>objects := (objects w)(a := (objects w a)
           \<lparr>currentlyUpdating := False, reorderGridTimeoutId := None\<rparr>),
       timeouts := []\<rparr>"

definition detached :: "shell \<Rightarrow> shell" where
  "detached w = w\<lparr>connections := [], timeouts := []\<rparr>"

definition restored :: "addr \<Rightarrow> shell \<Rightarrow> shell" where
  "restored a w =
     w\<lparr>compareItemsSlot := HostCompareItems, redisplaySlot := HostRedisplay,
       objects := (objects w)(a := (objects w a)
           \<lparr>savedCompareItems := None, savedRedisplay := None\<rparr>)\<rparr>"

definition constructed :: "shell \<Rightarrow> shell" where
  "constructed w =
     w\<lparr>objects := (objects w)(nextObject w := newAppGridExtension),
       nextObject := Suc (nextObject w), gridReorder := Some (nextObject w),
       loggingEnabled := logging_enabled (gsettings w)\<rparr>"

text \<open>
  The events other than \<open>enable\<close> and \<open>disable\<close>, and what such an event writes by
  itself, before any callback of the extension runs.
\<close>

fun hostEvent :: "event \<Rightarrow> bool" where
  "hostEvent Enable = False"
| "hostEvent Disable = False"
| "hostEvent e = True"

fun hostWrite :: "event \<Rightarrow> shell \<Rightarrow> shell" where
  "hostWrite (SetLoggingEnabled b) w = w\<lparr>gsettings := (gsettings w)\<lparr>logging_enabled := b\<rparr>\<rparr>"
| "hostWrite (SetSortFolderContents b) w =
     w\<lparr>gsettings := (gsettings w)\<lparr>sort_folder_contents := b\<rparr>\<rparr>"
| "hostWrite (SetFolderOrderPosition p) w =
     w\<lparr>gsettings := (gsettings w)\<lparr>folder_order_position := p\<rparr>\<rparr>"
| "hostWrite (SetFolderChildren ids) w =
     w\<lparr>gsettings := (gsettings w)\<lparr>folder_children := ids\<rparr>\<rparr>"
| "hostWrite (SetStateValue v) w = w\<lparr>stateValue := v\<rparr>"
| "hostWrite (SetUpdatingPages b) w = w\<lparr>updatingPages := b\<rparr>"
| "hostWrite e w = w"

text \<open>The error a call ended with, if any.\<close>

definition raised :: "error + 'a \<Rightarrow> error option" where
  "raised r = (case r of Inl e \<Rightarrow> Some e | Inr x \<Rightarrow> None)"

text \<open>
  The host calls \<open>enable\<close> and \<open>disable\<close> in turn: \<open>alternates on es\<close> says that the
  events \<open>es\<close> do so, starting from an extension that is enabled (\<open>on\<close>) or not.
\<close>

fun alternates :: "bool \<Rightarrow> event list \<Rightarrow> bool" where
  "alternates on [] = True"
| "alternates on (Enable # es) = (\<not> on \<and> alternates True es)"
| "alternates on (Disable # es) = (on \<and> alternates False es)"
| "alternates on (e # es) = alternates on es"

text \<open>
  An object is \<open>retired\<close> when it was constructed and the manager no longer holds it;
  a shell is \<open>consistent\<close> when it is quiet or runs the controller the manager holds;
  \<open>keeps a w w'\<close> says that the object at \<open>a\<close> and the allocation counter are the same
  in both shells.
\<close>

definition retired :: "addr \<Rightarrow> shell \<Rightarrow> bool" where
  "retired a w \<longleftrightarrow> a < nextObject w \<and> gridReorder w \<noteq> Some a"

definition consistent :: "shell \<Rightarrow> bool" where
  "consistent w = (case gridReorder w of None \<Rightarrow> quiet w | Some b \<Rightarrow> running b w)"

definition keeps :: "addr \<Rightarrow> shell \<Rightarrow> shell \<Rightarrow> bool" where
  "keeps a w w' \<longleftrightarrow> objects w' a = objects w a \<and> nextObject w' = nextObject w"

section \<open>Concrete inputs\<close>

definition zedFolder :: gridItem where
  "zedFolder = \<lparr>itemId = ''zed.folder'', kind = Folder, displayName = Some ''Zed''\<rparr>"

definition abcFolder :: gridItem where
  "abcFolder = \<lparr>itemId = ''abc.folder'', kind = Folder, displayName = Some ''Abc Folder''\<rparr>"

definition appleApp :: gridItem where
  "appleApp = \<lparr>itemId = ''apple.desktop'', kind = App, displayName = Some ''Apple''\<rparr>"

definition zedApp :: gridItem where
  "zedApp = \<lparr>itemId = ''zed.desktop'', kind = App, displayName = Some ''Zed''\<rparr>"

definition utilities :: folderEntry where
  "utilities = \<lparr>folderId = ''Utilities'', sortContents = True, children = [zedApp, appleApp]\<rparr>"

text \<open>
  A shell in which the extension has never been enabled. Its overview is an emitter whose
  \<^verbatim>\<open>disconnect\<close> throws for a handler id that is not connected; the other emitters
  only warn.
\<close>

definition freshShell :: shell where
  "freshShell =
     \<lparr>gridReorder = None, objects = (\<lambda>a. newAppGridExtension), nextObject = 0,
      loggingEnabled = False, journal = [],
      gsettings = \<lparr>logging_enabled = True, sort_folder_contents = True,
                    folder_order_position = ''top'', folder_children = [''Utilities'']\<rparr>,
      folders = [utilities], connections = [], nextHandlerId = 1, timeouts = [],
      nextSourceId = 1, compareItemsSlot = HostCompareItems, redisplaySlot = HostRedisplay,
      updatingPages = False, stateValue = 0, hostRedisplays = 0, gridReloads = 0,
      folderSorts = 0, hostCompareItems = (\<lambda>a b. 0),
      raisesOnStaleHandler = (\<lambda>e. e = Overview)\<rparr>"

section \<open>The comparator\<close>

lemma lexCompare_less: "lexCompare xs ys < 0 \<longleftrightarrow> xs < ys"
  by (induction xs ys rule: lexCompare.induct) auto

lemma compareNames_less: "compareNames x y < 0 \<longleftrightarrow> nameKey x < nameKey y"
  by (auto simp: compareNames_def nameKey_def lexCompare_less split: option.splits)

text \<open>
  C5. With the position \<open>First\<close> a folder compared with an app gives a negative result,
  so every folder sorts before every app; with \<open>Last\<close> it gives a positive result. Two
  folders are ordered by their position in \<open>pinnedFolderIds\<close>, and two folders of the same
  rank by the case-insensitive comparison of their names.
\<close>

theorem compareItems_folder_position:
  assumes "kind a = Folder" and "kind b = App" and "kind c = Folder" and "kind d = Folder"
  shows "compareItems a b First pinned < 0 \<and> compareItems a b Last pinned > 0
    \<and> (pinRank pinned (itemId c) < pinRank pinned (itemId d)
          \<longrightarrow> compareItems c d pos pinned < 0)
    \<and> (pinRank pinned (itemId d) < pinRank pinned (itemId c)
          \<longrightarrow> compareItems c d pos pinned > 0)
    \<and> (pinRank pinned (itemId c) = pinRank pinned (itemId d)
          \<longrightarrow> compareItems c d pos pinned = compareNames (displayName c) (displayName d))"
  using assms by (simp add: compareItems_def)

theorem compareItems_folder_position_witness:
  "compareItems zedFolder appleApp First [''zed.folder'', ''abc.folder''] < 0
   \<and> compareItems zedFolder appleApp Last [''zed.folder'', ''abc.folder''] > 0
   \<and> pinRank [''zed.folder'', ''abc.folder''] (itemId zedFolder)
       < pinRank [''zed.folder'', ''abc.folder''] (itemId abcFolder)
   \<and> compareItems zedFolder abcFolder First [''zed.folder'', ''abc.folder''] < 0"
proof -
  have k: "kind zedFolder = Folder" "kind appleApp = App" "kind abcFolder = Folder"
    by (simp_all add: zedFolder_def appleApp_def abcFolder_def)
  have r: "pinRank [''zed.folder'', ''abc.folder''] (itemId zedFolder)
           < pinRank [''zed.folder'', ''abc.folder''] (itemId abcFolder)"
    by (simp add: zedFolder_def abcFolder_def)
  from compareItems_folder_position [OF k(1) k(2) k(1) k(3),
      of "[''zed.folder'', ''abc.folder'']" First] r
  show ?thesis by blast
qed

section \<open>The folder sort\<close>

lemma sortFolder_idem: "sortFolder (sortFolder f) = sortFolder f"
  by (simp add: sortFolder_def sort_key_id_if_sorted)

text \<open>
  C7. \<open>reorderFolderContents\<close> is idempotent: a second run on the stored folders leaves
  every child order, and everything else stored, as the first run left it.
\<close>

theorem reorderFolderContents_idempotent:
  "reorderFolderContents (reorderFolderContents fs) = reorderFolderContents fs"
  by (simp add: reorderFolderContents_def sortFolder_idem)

theorem reorderFolderContents_idempotent_witness:
  "reorderFolderContents (reorderFolderContents [utilities]) = reorderFolderContents [utilities]"
  by (rule reorderFolderContents_idempotent)

section \<open>The controller\<close>

lemma startListeners_eq:
  "startListeners a w =
     logMessage ''Connected to listeners''
       (w\<lparr>connections := connections w @ listenersOf a (nextHandlerId w),
          nextHandlerId := nextHandlerId w + 7,
          objects := (objects w)(a := subscribed a (nextHandlerId w) (objects w a))\<rparr>)"
  by (simp add: startListeners_def waitForGridReorder_def waitForFavouritesChange_def
      waitForSettingsChange_def waitForInstalledAppsChange_def waitForFolderChange_def
      reorderOnDisplay_def connect_def thisUpdate_def listenersOf_def subscribed_def Let_def
      eval_nat_numeral)

lemma reorderGrid_busy:
  "currentlyUpdating (objects w a) \<or> updatingPages w \<Longrightarrow> reorderGrid a t w = w"
  by (auto simp add: reorderGrid_def)

lemma reorderGrid_idle:
  assumes "\<not> currentlyUpdating (objects w a)" and "\<not> updatingPages w"
  shows "reorderGrid a t w =
     scheduled a
       (if sort_folder_contents (gsettings w)
        then callReorderFolderContents (logMessage ''Reordering folder contents'' (logMessage t w))
        else logMessage t w)"
  using assms
  by (simp add: reorderGrid_def scheduled_def thisUpdate_def logMessage_def timeout_add_def
      callReorderFolderContents_def pendingOf_def Let_def)

lemma running_iff: "running a w \<longleftrightarrow> (\<exists>n. runningAt a n w)"
  by (auto simp add: running_def runningAt_def split: option.splits)

lemma runningAt_logMessage [simp]: "runningAt a n (logMessage m w) = runningAt a n w"
  by (simp add: runningAt_def logMessage_def)

lemma runningAt_callReorderFolderContents [simp]:
  "runningAt a n (callReorderFolderContents w) = runningAt a n w"
  by (simp add: runningAt_def callReorderFolderContents_def)

lemma objects_logMessage [simp]: "objects (logMessage m w) = objects w"
  by (simp add: logMessage_def)

lemma objects_callReorderFolderContents [simp]:
  "objects (callReorderFolderContents w) = objects w"
  by (simp add: callReorderFolderContents_def)

lemma runningAt_scheduled:
  assumes "runningAt a n w" and "\<not> currentlyUpdating (objects w a)"
  shows "runningAt a n (scheduled a w)"
proof -
  from assms have "reorderGridTimeoutId (objects w a) = None" "timeouts w = []"
    by (simp_all add: runningAt_def pendingOf_def)
  with assms(1) show ?thesis
    by (simp add: runningAt_def scheduled_def pendingOf_def)
qed

lemma runningAt_reorderGrid:
  assumes "runningAt a n w"
  shows "runningAt a n (reorderGrid a t w)"
proof (cases "currentlyUpdating (objects w a) \<or> updatingPages w")
  case True
  then show ?thesis using assms by (simp add: reorderGrid_busy)
next
  case False
  then show ?thesis using assms
    by (simp add: reorderGrid_idle runningAt_scheduled)
qed

lemma runningAt_loggingEnabled [simp]:
  "runningAt a n (w\<lparr>loggingEnabled := b\<rparr>) = runningAt a n w"
  by (simp add: runningAt_def)

lemma runningAt_runCallback:
  assumes "runningAt a n w" and "callbackThis cb = a"
  shows "runningAt a n (runCallback cb w)"
  using assms by (cases cb) (simp_all add: runningAt_reorderGrid)

lemma runningAt_fold:
  assumes "runningAt a n w" and "list_all (\<lambda>c. callbackThis (handler c) = a) cs"
  shows "runningAt a n (fold (\<lambda>c. runCallback (handler c)) cs w)"
  using assms by (induction cs arbitrary: w) (simp_all add: runningAt_runCallback)

lemma listenersOf_this: "list_all (\<lambda>c. callbackThis (handler c) = a) (listenersOf a n)"
  by (simp add: listenersOf_def)

lemma list_all_filter: "list_all P xs \<Longrightarrow> list_all P (filter Q xs)"
  by (induction xs) simp_all

lemma runningAt_emit:
  assumes "runningAt a n w"
  shows "runningAt a n (emit ev w)"
proof -
  from assms have "connections w = listenersOf a n" by (simp add: runningAt_def)
  then have "list_all (\<lambda>c. callbackThis (handler c) = a) (filter (listensTo ev) (connections w))"
    by (simp add: list_all_filter listenersOf_this)
  with assms show ?thesis unfolding emit_def by (rule runningAt_fold)
qed

lemma dispatchTimeout_none:
  "list_all (\<lambda>t. sourceId t \<noteq> i) (timeouts w) \<Longrightarrow> dispatchTimeout i w = w"
proof -
  assume "list_all (\<lambda>t. sourceId t \<noteq> i) (timeouts w)"
  then have "find (\<lambda>t. sourceId t = i) (timeouts w) = None"
    by (simp add: find_None_iff list_all_iff)
  then show ?thesis by (simp add: dispatchTimeout_def)
qed

lemma dispatchTimeout_pending:
  assumes "timeouts w = pendingOf a (Some i)"
  shows "dispatchTimeout i w = released a (redisplay w)"
proof -
  have "timeouts (redisplay w) = timeouts w" "objects (redisplay w) = objects w"
    by (simp_all add: redisplay_def reloadAppGrid_def split: redisplayImpl.splits)
  with assms show ?thesis
    by (simp add: dispatchTimeout_def pendingOf_def source_remove_def reorderGridTimeout_def
        thisUpdate_def released_def)
qed

lemma runningAt_redisplay [simp]: "runningAt a n (redisplay w) = runningAt a n w"
  by (simp add: runningAt_def redisplay_def reloadAppGrid_def split: redisplayImpl.splits)

lemma runningAt_released:
  "runningAt a n w \<Longrightarrow> runningAt a n (released a w)"
  by (simp add: runningAt_def released_def pendingOf_def)

lemma runningAt_dispatchTimeout:
  assumes "runningAt a n w"
  shows "runningAt a n (dispatchTimeout i w)"
proof (cases "reorderGridTimeoutId (objects w a) = Some i")
  case True
  with assms have "timeouts w = pendingOf a (Some i)" by (simp add: runningAt_def)
  then show ?thesis using assms
    by (simp add: dispatchTimeout_pending runningAt_released)
next
  case False
  with assms have "list_all (\<lambda>t. sourceId t \<noteq> i) (timeouts w)"
    by (cases "reorderGridTimeoutId (objects w a)") (simp_all add: runningAt_def pendingOf_def)
  then show ?thesis using assms by (simp add: dispatchTimeout_none)
qed

lemma objects_detached [simp]: "objects (detached w) = objects w"
  by (simp add: detached_def)

lemma disconnectListeners_running:
  assumes "runningAt a n w"
  shows "disconnectListeners a w = Inr (logMessage ''Disconnected from listeners'' (detached w))"
proof (cases "reorderGridTimeoutId (objects w a)")
  case None
  with assms have "timeouts w = []" by (simp add: runningAt_def pendingOf_def)
  then have "w\<lparr>connections := []\<rparr> = detached w"
    by (cases w) (simp add: detached_def)
  with assms None show ?thesis
    by (simp add: runningAt_def disconnectListeners_def disconnect_def isConnection_def
        listenersOf_def andThen_def)
next
  case (Some i)
  with assms have "timeouts w = pendingOf a (Some i)" by (simp add: runningAt_def)
  with assms Some show ?thesis
    by (simp add: runningAt_def disconnectListeners_def disconnect_def isConnection_def
        listenersOf_def andThen_def source_remove_def pendingOf_def detached_def)
qed

lemma clear_unpatched:
  assumes "savedCompareItems (objects w a) = None" and "savedRedisplay (objects w a) = None"
  shows "clear a w = w"
proof -
  have same: "(objects w a)\<lparr>savedCompareItems := None, savedRedisplay := None\<rparr> = objects w a"
    using assms by (cases "objects w a") simp
  show ?thesis by (simp add: clear_def thisUpdate_def assms same)
qed

lemma disable_running:
  assumes "runningAt a n w"
  shows "disable w =
     Inr ((logMessage ''Unpatched redisplay'' (logMessage ''Unpatched item comparison''
            (restored a (logMessage ''Disconnected from listeners'' (detached w)))))
          \<lparr>gridReorder := None\<rparr>)"
proof -
  let ?w1 = "logMessage ''Disconnected from listeners'' (detached w)"
  have "clear a ?w1 = restored a ?w1"
    using assms by (simp add: runningAt_def clear_def thisUpdate_def restored_def)
  with assms show ?thesis
    by (simp add: disable_def disconnectListeners_running andThen_def unpatchShell_def
        runningAt_def)
qed

lemma quiet_disable:
  assumes "runningAt a n w" and "disable w = Inr w'"
  shows "quiet w'"
  using assms
  by (auto simp add: disable_running quiet_def restored_def logMessage_def detached_def)

lemma enable_eq:
  "enable w =
     reorderGrid (nextObject w) ''Reordering app grid''
       (startListeners (nextObject w) (patchShell (nextObject w) (redisplay (constructed w))))"
  by (simp add: enable_def constructed_def Let_def)

lemma runningAt_started:
  assumes "quiet w"
  shows "runningAt (nextObject w) (nextHandlerId w)
           (startListeners (nextObject w) (patchShell (nextObject w) (redisplay (constructed w))))"
  using assms
  by (simp add: quiet_def runningAt_def startListeners_eq patchShell_def
      overrideCompareItems_def overrideRedisplay_def thisUpdate_def logMessage_def
      redisplay_def constructed_def subscribed_def newAppGridExtension_def pendingOf_def
      Let_def)

lemma runningAt_enable:
  assumes "quiet w"
  shows "runningAt (nextObject w) (nextHandlerId w) (enable w)"
  unfolding enable_eq using assms by (intro runningAt_reorderGrid runningAt_started)

lemma runningAt_hostWrite [simp]: "runningAt a n (hostWrite e w) = runningAt a n w"
  by (cases e) (simp_all add: runningAt_def)

lemma quiet_hostWrite [simp]: "quiet (hostWrite e w) = quiet w"
  by (cases e) (simp_all add: quiet_def)

lemma emit_quiet: "connections w = [] \<Longrightarrow> emit ev w = w"
  by (simp add: emit_def)

lemma dispatchTimeout_quiet: "timeouts w = [] \<Longrightarrow> dispatchTimeout i w = w"
  by (simp add: dispatchTimeout_def)

lemma step_quiet:
  assumes "quiet w" and "hostEvent e"
  shows "step e w = Inr (hostWrite e w)"
  using assms by (cases e) (simp_all add: quiet_def emit_quiet dispatchTimeout_quiet)

lemma run_quiet:
  assumes "quiet w" and "list_all hostEvent es"
  shows "run es w = Inr (fold hostWrite es w) \<and> quiet (fold hostWrite es w)"
  using assms
  by (induction es arbitrary: w) (simp_all add: step_quiet andThen_def)

lemma step_running:
  assumes "runningAt a n w" and "hostEvent e"
  shows "\<exists>w'. step e w = Inr w' \<and> runningAt a n w'"
proof (cases e)
  case (Emit ev)
  with assms show ?thesis by (simp add: runningAt_emit)
next
  case (Timeout i)
  with assms show ?thesis by (simp add: runningAt_dispatchTimeout)
next
  case (SetLoggingEnabled b)
  from assms(1) have "runningAt a n (hostWrite e w)" by simp
  with SetLoggingEnabled show ?thesis by (simp add: runningAt_emit)
next
  case (SetSortFolderContents b)
  from assms(1) have "runningAt a n (hostWrite e w)" by simp
  with SetSortFolderContents show ?thesis by (simp add: runningAt_emit)
next
  case (SetFolderOrderPosition p)
  from assms(1) have "runningAt a n (hostWrite e w)" by simp
  with SetFolderOrderPosition show ?thesis by (simp add: runningAt_emit)
next
  case (SetFolderChildren ids)
  from assms(1) have "runningAt a n (hostWrite e w)" by simp
  with SetFolderChildren show ?thesis by (simp add: runningAt_emit)
next
  case (SetStateValue v)
  from assms(1) have "runningAt a n (hostWrite e w)" by simp
  with SetStateValue show ?thesis by (simp add: runningAt_emit)
next
  case (SetUpdatingPages b)
  from assms(1) have "runningAt a n (hostWrite e w)" by simp
  with SetUpdatingPages show ?thesis by simp
qed (use assms in simp_all)

lemma run_running:
  assumes "runningAt a n w" and "list_all hostEvent es"
  shows "\<exists>w'. run es w = Inr w' \<and> runningAt a n w'"
  using assms
proof (induction es arbitrary: w)
  case Nil
  then show ?case by simp
next
  case (Cons e es)
  then obtain w1 where s: "step e w = Inr w1" "runningAt a n w1"
    using step_running [of a n w e] by auto
  with Cons show ?case by (simp add: andThen_def)
qed

section \<open>The lock\<close>

lemma runCallback_busy:
  assumes "currentlyUpdating (objects w a)" and "callbackThis cb = a"
  shows "runCallback cb w = w
       \<or> runCallback cb w = w\<lparr>loggingEnabled := logging_enabled (gsettings w)\<rparr>"
  using assms by (cases cb) (simp_all add: reorderGrid_busy)

lemma fold_busy:
  assumes "currentlyUpdating (objects w a)"
    and "list_all (\<lambda>c. callbackThis (handler c) = a) cs"
  shows "fold (\<lambda>c. runCallback (handler c)) cs w = w
       \<or> fold (\<lambda>c. runCallback (handler c)) cs w
           = w\<lparr>loggingEnabled := logging_enabled (gsettings w)\<rparr>"
  using assms
proof (induction cs arbitrary: w)
  case Nil
  then show ?case by simp
next
  case (Cons c cs)
  let ?w1 = "w\<lparr>loggingEnabled := logging_enabled (gsettings w)\<rparr>"
  from Cons.prems have c: "callbackThis (handler c) = a"
    and cs: "list_all (\<lambda>c. callbackThis (handler c) = a) cs" by simp_all
  from runCallback_busy [OF Cons.prems(1) c]
  consider "runCallback (handler c) w = w" | "runCallback (handler c) w = ?w1" by blast
  then show ?case
  proof cases
    case 1
    with Cons.IH [OF Cons.prems(1) cs] show ?thesis by simp
  next
    case 2
    have "currentlyUpdating (objects ?w1 a)" using Cons.prems(1) by simp
    from Cons.IH [OF this cs] 2 show ?thesis by simp
  qed
qed

lemma emit_busy:
  assumes "runningAt a n w" and "currentlyUpdating (objects w a)"
  shows "emit ev w = w \<or> emit ev w = w\<lparr>loggingEnabled := logging_enabled (gsettings w)\<rparr>"
proof -
  from assms(1) have "connections w = listenersOf a n" by (simp add: runningAt_def)
  then have "list_all (\<lambda>c. callbackThis (handler c) = a) (filter (listensTo ev) (connections w))"
    by (simp add: list_all_filter listenersOf_this)
  from fold_busy [OF assms(2) this] show ?thesis by (simp add: emit_def)
qed

lemma burst_busy:
  assumes "runningAt a n w" and "currentlyUpdating (objects w a)"
  shows "run (map Emit evs) w = Inr w
       \<or> run (map Emit evs) w = Inr (w\<lparr>loggingEnabled := logging_enabled (gsettings w)\<rparr>)"
  using assms
proof (induction evs arbitrary: w)
  case Nil
  then show ?case by simp
next
  case (Cons ev evs)
  let ?w1 = "w\<lparr>loggingEnabled := logging_enabled (gsettings w)\<rparr>"
  from emit_busy [OF Cons.prems]
  consider "emit ev w = w" | "emit ev w = ?w1" by blast
  then show ?case
  proof cases
    case 1
    with Cons.IH [OF Cons.prems] show ?thesis by (simp add: andThen_def)
  next
    case 2
    have "runningAt a n ?w1" "currentlyUpdating (objects ?w1 a)"
      using Cons.prems by simp_all
    from Cons.IH [OF this] 2 show ?thesis by (simp add: andThen_def)
  qed
qed

lemma fire_after_burst:
  assumes "runningAt a n w" and "reorderGridTimeoutId (objects w a) = Some i"
    and "w' = w \<or> w' = w\<lparr>loggingEnabled := b\<rparr>"
  shows "gridReloads (dispatchTimeout i w') = Suc (gridReloads w)
       \<and> folderSorts (dispatchTimeout i w') = folderSorts w
       \<and> timeouts (dispatchTimeout i w') = []
       \<and> \<not> currentlyUpdating (objects (dispatchTimeout i w') a)"
proof -
  from assms(1,2) have t: "timeouts w = pendingOf a (Some i)" and r: "redisplaySlot w = ReloadAppGrid"
    by (simp_all add: runningAt_def)
  from assms(3) t have "timeouts w' = pendingOf a (Some i)" by auto
  from dispatchTimeout_pending [OF this] assms(3) r show ?thesis
    by (auto simp add: released_def redisplay_def reloadAppGrid_def)
qed

text \<open>
  C1. While the lock of the controller is held, \<open>reorderGrid\<close> changes nothing: no folder
  sort, no timeout source, no field of the controller. A callback of the controller run
  in that state changes at most the logging flag of the module, which the settings
  callback refreshes before it asks for the reorder. So a burst of signals during one
  reorder in flight leaves the shell as it was, and when the one pending timeout fires
  \<open>reloadAppGrid\<close> has run exactly once.
\<close>

theorem busy_triggers_dropped:
  assumes "currentlyUpdating (objects w a)"
  shows "reorderGrid a logText w = w
    \<and> (callbackThis cb = a \<longrightarrow>
          runCallback cb w = w
          \<or> runCallback cb w = w\<lparr>loggingEnabled := logging_enabled (gsettings w)\<rparr>)
    \<and> (running a w \<longrightarrow>
          (\<exists>i w'. reorderGridTimeoutId (objects w a) = Some i
             \<and> run (map Emit evs) w = Inr w'
             \<and> (w' = w \<or> w' = w\<lparr>loggingEnabled := logging_enabled (gsettings w)\<rparr>)
             \<and> gridReloads (dispatchTimeout i w') = Suc (gridReloads w)
             \<and> folderSorts (dispatchTimeout i w') = folderSorts w
             \<and> timeouts (dispatchTimeout i w') = []))"
proof (intro conjI impI)
  show "reorderGrid a logText w = w" using assms by (simp add: reorderGrid_busy)
next
  assume "callbackThis cb = a"
  with assms show "runCallback cb w = w
       \<or> runCallback cb w = w\<lparr>loggingEnabled := logging_enabled (gsettings w)\<rparr>"
    by (rule runCallback_busy)
next
  assume "running a w"
  then obtain n where n: "runningAt a n w" by (auto simp add: running_iff)
  with assms obtain i where i: "reorderGridTimeoutId (objects w a) = Some i"
    by (auto simp add: runningAt_def)
  from burst_busy [OF n assms, of evs] obtain w' where
    w': "run (map Emit evs) w = Inr w'"
       "w' = w \<or> w' = w\<lparr>loggingEnabled := logging_enabled (gsettings w)\<rparr>" by auto
  from fire_after_burst [OF n i w'(2)] i w'
  show "\<exists>i w'. reorderGridTimeoutId (objects w a) = Some i
             \<and> run (map Emit evs) w = Inr w'
             \<and> (w' = w \<or> w' = w\<lparr>loggingEnabled := logging_enabled (gsettings w)\<rparr>)
             \<and> gridReloads (dispatchTimeout i w') = Suc (gridReloads w)
             \<and> folderSorts (dispatchTimeout i w') = folderSorts w
             \<and> timeouts (dispatchTimeout i w') = []" by blast
qed

theorem busy_triggers_dropped_witness:
  "currentlyUpdating (objects (enable freshShell) 0)
   \<and> callbackThis (FavouriteAppsCallback 0) = 0
   \<and> running 0 (enable freshShell)
   \<and> reorderGrid 0 ''Favourite apps changed, triggering reorder'' (enable freshShell)
       = enable freshShell
   \<and> (\<exists>i w'. reorderGridTimeoutId (objects (enable freshShell) 0) = Some i
         \<and> run (map Emit [Changed ShellSchema ''favorite-apps'',
                           Changed ShellSchema ''favorite-apps'']) (enable freshShell) = Inr w'
         \<and> gridReloads (dispatchTimeout i w') = Suc (gridReloads (enable freshShell)))"
proof -
  have b: "currentlyUpdating (objects (enable freshShell) 0)" by code_simp
  have r: "running 0 (enable freshShell)" by code_simp
  have c: "callbackThis (FavouriteAppsCallback 0) = 0" by simp
  from busy_triggers_dropped [OF b, of "''Favourite apps changed, triggering reorder''"
      "FavouriteAppsCallback 0"
      "[Changed ShellSchema ''favorite-apps'', Changed ShellSchema ''favorite-apps'']"] b r c
  show ?thesis by blast
qed

section \<open>One reorder\<close>

lemma find_append_None: "find P xs = None \<Longrightarrow> find P (xs @ ys) = find P ys"
  by (induction xs) (simp_all split: if_splits)

lemma dispatchTimeout_scheduled:
  assumes "list_all (\<lambda>t. sourceId t \<noteq> nextSourceId w) (timeouts w)"
  shows "dispatchTimeout (nextSourceId w) (scheduled a w)
       = (redisplay (scheduled a w))
           \<lparr>timeouts := timeouts w,
             objects := (objects w)(a := (objects w a)
               \<lparr>currentlyUpdating := False, reorderGridTimeoutId := None\<rparr>)\<rparr>"
proof -
  let ?i = "nextSourceId w"
  let ?t = "\<lparr>sourceId = ?i, interval = 100, onTimeout = ReorderGridTimeout a\<rparr>"
  from assms have none: "find (\<lambda>t. sourceId t = ?i) (timeouts w) = None"
    "filter (\<lambda>t. sourceId t \<noteq> ?i) (timeouts w) = timeouts w"
    by (simp_all add: find_None_iff list_all_iff)
  have found: "find (\<lambda>t. sourceId t = ?i) (timeouts (scheduled a w)) = Some ?t"
    using none by (simp add: scheduled_def pendingOf_def find_append_None)
  have r: "timeouts (redisplay (scheduled a w)) = timeouts w @ [?t]"
    "objects (redisplay (scheduled a w)) a
       = (objects w a)\<lparr>currentlyUpdating := True, reorderGridTimeoutId := Some ?i\<rparr>"
    "objects (redisplay (scheduled a w))
       = (objects w)(a := (objects w a)\<lparr>currentlyUpdating := True, reorderGridTimeoutId := Some ?i\<rparr>)"
    by (simp_all add: redisplay_def reloadAppGrid_def scheduled_def pendingOf_def
        split: redisplayImpl.splits)
  show ?thesis
    using found none(2) r
    by (simp add: dispatchTimeout_def source_remove_def reorderGridTimeout_def thisUpdate_def)
qed

text \<open>
  C2. Called with the lock released and no page update of the host under way,
  \<open>reorderGrid\<close> takes the lock, runs \<open>reorderFolderContents\<close> exactly when
  \<open>sort-folder-contents\<close> is set, and registers one timeout source of 100 ms without
  redisplaying yet. When that source fires, \<open>_redisplay\<close> runs once (which is
  \<open>reloadAppGrid\<close> while the shell is patched), the lock is released, the stored timeout
  id is cleared and the source is gone.
\<close>

theorem reorderGrid_starts_reorder:
  assumes "\<not> currentlyUpdating (objects w a)" and "\<not> updatingPages w"
    and "list_all (\<lambda>t. sourceId t \<noteq> nextSourceId w) (timeouts w)"
  shows "\<exists>w1 w2. reorderGrid a logText w = w1 \<and> dispatchTimeout (nextSourceId w) w1 = w2
    \<and> currentlyUpdating (objects w1 a)
    \<and> reorderGridTimeoutId (objects w1 a) = Some (nextSourceId w)
    \<and> timeouts w1 = timeouts w
          @ [\<lparr>sourceId = nextSourceId w, interval = 100, onTimeout = ReorderGridTimeout a\<rparr>]
    \<and> folders w1 = (if sort_folder_contents (gsettings w)
                     then reorderFolderContents (folders w) else folders w)
    \<and> folderSorts w1 = (if sort_folder_contents (gsettings w)
                         then Suc (folderSorts w) else folderSorts w)
    \<and> gridReloads w1 = gridReloads w \<and> hostRedisplays w1 = hostRedisplays w
    \<and> w2 = (redisplay w1)\<lparr>timeouts := timeouts w,
               objects := (objects w)(a := (objects w a)
                 \<lparr>currentlyUpdating := False, reorderGridTimeoutId := None\<rparr>)\<rparr>
    \<and> \<not> currentlyUpdating (objects w2 a)
    \<and> reorderGridTimeoutId (objects w2 a) = None
    \<and> timeouts w2 = timeouts w
    \<and> gridReloads w2 = (if redisplaySlot w = ReloadAppGrid
                         then Suc (gridReloads w) else gridReloads w)
    \<and> hostRedisplays w2 = (if redisplaySlot w = ReloadAppGrid
                            then hostRedisplays w else Suc (hostRedisplays w))"
proof -
  define v where "v = (if sort_folder_contents (gsettings w)
        then callReorderFolderContents
               (logMessage ''Reordering folder contents'' (logMessage logText w))
        else logMessage logText w)"
  have v: "nextSourceId v = nextSourceId w" "timeouts v = timeouts w"
    "objects v = objects w" "redisplaySlot v = redisplaySlot w"
    "gridReloads v = gridReloads w" "hostRedisplays v = hostRedisplays w"
    "folders v = (if sort_folder_contents (gsettings w)
                     then reorderFolderContents (folders w) else folders w)"
    "folderSorts v = (if sort_folder_contents (gsettings w)
                         then Suc (folderSorts w) else folderSorts w)"
    by (simp_all add: v_def callReorderFolderContents_def logMessage_def)
  have g: "reorderGrid a logText w = scheduled a v"
    unfolding v_def using assms(1,2) by (rule reorderGrid_idle)
  have "list_all (\<lambda>t. sourceId t \<noteq> nextSourceId v) (timeouts v)"
    using assms(3) v(1,2) by simp
  from dispatchTimeout_scheduled [OF this, of a]
  have d: "dispatchTimeout (nextSourceId w) (scheduled a v)
       = (redisplay (scheduled a v))
           \<lparr>timeouts := timeouts w,
             objects := (objects w)(a := (objects w a)
               \<lparr>currentlyUpdating := False, reorderGridTimeoutId := None\<rparr>)\<rparr>"
    using v(1,2,3) by simp
  have s: "currentlyUpdating (objects (scheduled a v) a)"
    "reorderGridTimeoutId (objects (scheduled a v) a) = Some (nextSourceId w)"
    "timeouts (scheduled a v) = timeouts w
          @ [\<lparr>sourceId = nextSourceId w, interval = 100, onTimeout = ReorderGridTimeout a\<rparr>]"
    "folders (scheduled a v) = folders v" "folderSorts (scheduled a v) = folderSorts v"
    "gridReloads (scheduled a v) = gridReloads w"
    "hostRedisplays (scheduled a v) = hostRedisplays w"
    "redisplaySlot (scheduled a v) = redisplaySlot w"
    using v(1-6) by (simp_all add: scheduled_def pendingOf_def)
  have r: "gridReloads (redisplay (scheduled a v))
             = (if redisplaySlot w = ReloadAppGrid then Suc (gridReloads w) else gridReloads w)"
    "hostRedisplays (redisplay (scheduled a v))
             = (if redisplaySlot w = ReloadAppGrid
                then hostRedisplays w else Suc (hostRedisplays w))"
    using s(6,7,8)
    by (simp_all add: redisplay_def reloadAppGrid_def split: redisplayImpl.splits)
  show ?thesis
    using s v(7,8) r by (simp add: g d)
qed

theorem reorderGrid_starts_reorder_witness:
  "\<not> currentlyUpdating (objects (dispatchTimeout 1 (enable freshShell)) 0)
   \<and> \<not> updatingPages (dispatchTimeout 1 (enable freshShell))
   \<and> list_all (\<lambda>t. sourceId t \<noteq> nextSourceId (dispatchTimeout 1 (enable freshShell)))
        (timeouts (dispatchTimeout 1 (enable freshShell)))
   \<and> (\<exists>w1 w2. reorderGrid 0 ''App movement detected, triggering reorder''
                  (dispatchTimeout 1 (enable freshShell)) = w1
         \<and> dispatchTimeout (nextSourceId (dispatchTimeout 1 (enable freshShell))) w1 = w2
         \<and> currentlyUpdating (objects w1 0)
         \<and> folderSorts w1 = Suc (folderSorts (dispatchTimeout 1 (enable freshShell)))
         \<and> \<not> currentlyUpdating (objects w2 0)
         \<and> reorderGridTimeoutId (objects w2 0) = None
         \<and> gridReloads w2 = Suc (gridReloads (dispatchTimeout 1 (enable freshShell))))"
proof -
  let ?w = "dispatchTimeout 1 (enable freshShell)"
  have h: "\<not> currentlyUpdating (objects ?w 0)" "\<not> updatingPages ?w"
    "list_all (\<lambda>t. sourceId t \<noteq> nextSourceId ?w) (timeouts ?w)"
    by code_simp+
  have c: "sort_folder_contents (gsettings ?w)" "redisplaySlot ?w = ReloadAppGrid"
    by code_simp+
  from reorderGrid_starts_reorder [OF h, of "''App movement detected, triggering reorder''"]
    h c show ?thesis by auto
qed

section \<open>Teardown\<close>

lemma unpatchShell_unpatched:
  assumes "savedCompareItems (objects w a) = None" and "savedRedisplay (objects w a) = None"
  shows "unpatchShell a w
       = logMessage ''Unpatched redisplay'' (logMessage ''Unpatched item comparison'' w)"
  using assms by (simp add: unpatchShell_def clear_unpatched)

lemma disconnectListeners_again:
  assumes "runningAt a n w"
    and "w1 = logMessage ''Disconnected from listeners'' (detached w)"
  shows "raised (disconnectListeners a w1) =
     (if raisesOnStaleHandler w (SettingsObject ShellSchema a)
        then Some (NoSignalConnection (SettingsObject ShellSchema a) (Some n))
      else if raisesOnStaleHandler w Overview
        then Some (NoSignalConnection Overview (Some (n + 1)))
      else if raisesOnStaleHandler w (SettingsObject ExtensionSchema a)
        then Some (NoSignalConnection (SettingsObject ExtensionSchema a) (Some (n + 3)))
      else if raisesOnStaleHandler w AppSystem
        then Some (NoSignalConnection AppSystem (Some (n + 4)))
      else if raisesOnStaleHandler w (SettingsObject FolderSchema a)
        then Some (NoSignalConnection (SettingsObject FolderSchema a) (Some (n + 5)))
      else if raisesOnStaleHandler w StateAdjustment
        then Some (NoSignalConnection StateAdjustment (Some (n + 6)))
      else None)"
proof -
  have c: "connections w1 = []" "raisesOnStaleHandler w1 = raisesOnStaleHandler w"
    "objects w1 = objects w"
    by (simp_all add: assms(2) logMessage_def detached_def)
  from assms(1) have ids: "reorderSignal (objects w a) = Some n"
    "dragReorderSignal (objects w a) = Some (n + 1)"
    "favouriteAppsSignal (objects w a) = Some (n + 2)"
    "settingsChangedSignal (objects w a) = Some (n + 3)"
    "installedAppsChangedSignal (objects w a) = Some (n + 4)"
    "foldersChangedSignal (objects w a) = Some (n + 5)"
    "reorderOnDisplaySignal (objects w a) = Some (n + 6)"
    by (simp_all add: runningAt_def)
  show ?thesis
    using c ids
    by (simp add: disconnectListeners_def disconnect_def andThen_def raised_def)
qed

text \<open>
  C3, as the claim states it, fails: only the disconnect from the state adjustment and the
  removal of the timeout source are guarded, by a test for null, and no handle is cleared
  by the teardown. A second \<open>disconnectListeners\<close> therefore hands the stale handler ids
  to the host again, and on a host whose overview throws for an id that is not connected
  the second call raises. A second \<open>disable\<close> raises on every host, since the first one
  sets \<open>_gridReorder\<close> to null.
\<close>

theorem disconnectListeners_twice_counterexample:
  "raised (disconnectListeners 0 (enable freshShell)) = None
   \<and> raised (andThen (disconnectListeners 0 (enable freshShell)) (disconnectListeners 0))
       = Some (NoSignalConnection Overview (Some 2))
   \<and> raised (disable (enable freshShell)) = None
   \<and> raised (andThen (disable (enable freshShell)) disable) = Some NullReference"
  by code_simp

text \<open>
  C3, amended. \<open>unpatchShell\<close> on an object that has nothing patched restores nothing and
  only writes its two log lines. On a started controller one \<open>disconnectListeners\<close>
  raises nothing, whether or not a timeout is pending, and leaves no connection and no
  timeout source; so does one \<open>disable\<close>. A second \<open>disconnectListeners\<close> raises
  exactly when the host's \<open>disconnect\<close> throws, for one of the six emitters, on a handler
  id that is not connected.
\<close>

theorem teardown_once_safe:
  "(savedCompareItems (objects v b) = None \<and> savedRedisplay (objects v b) = None \<longrightarrow>
      unpatchShell b v
        = logMessage ''Unpatched redisplay'' (logMessage ''Unpatched item comparison'' v))
   \<and> (running a w \<longrightarrow>
        (\<exists>w1 w2. disconnectListeners a w = Inr w1 \<and> connections w1 = [] \<and> timeouts w1 = []
           \<and> disable w = Inr w2 \<and> quiet w2
           \<and> (raised (disconnectListeners a w1) = None \<longleftrightarrow>
                list_all (\<lambda>e. \<not> raisesOnStaleHandler w e)
                  [SettingsObject ShellSchema a, Overview, SettingsObject ExtensionSchema a,
                   AppSystem, SettingsObject FolderSchema a, StateAdjustment])))"
proof (intro conjI impI)
  assume "savedCompareItems (objects v b) = None \<and> savedRedisplay (objects v b) = None"
  then show "unpatchShell b v
        = logMessage ''Unpatched redisplay'' (logMessage ''Unpatched item comparison'' v)"
    by (simp add: unpatchShell_unpatched)
next
  assume "running a w"
  then obtain n where n: "runningAt a n w" by (auto simp add: running_iff)
  define w1 where "w1 = logMessage ''Disconnected from listeners'' (detached w)"
  have d: "disconnectListeners a w = Inr w1"
    unfolding w1_def using n by (rule disconnectListeners_running)
  have e: "connections w1 = []" "timeouts w1 = []"
    by (simp_all add: w1_def logMessage_def detached_def)
  obtain w2 where w2: "disable w = Inr w2" using disable_running [OF n] by simp
  with n have q: "quiet w2" by (rule quiet_disable)
  have "raised (disconnectListeners a w1) = None \<longleftrightarrow>
                list_all (\<lambda>e. \<not> raisesOnStaleHandler w e)
                  [SettingsObject ShellSchema a, Overview, SettingsObject ExtensionSchema a,
                   AppSystem, SettingsObject FolderSchema a, StateAdjustment]"
    using disconnectListeners_again [OF n w1_def] by simp
  with d e w2 q
  show "\<exists>w1 w2. disconnectListeners a w = Inr w1 \<and> connections w1 = [] \<and> timeouts w1 = []
           \<and> disable w = Inr w2 \<and> quiet w2
           \<and> (raised (disconnectListeners a w1) = None \<longleftrightarrow>
                list_all (\<lambda>e. \<not> raisesOnStaleHandler w e)
                  [SettingsObject ShellSchema a, Overview, SettingsObject ExtensionSchema a,
                   AppSystem, SettingsObject FolderSchema a, StateAdjustment])"
    by (intro exI [of _ w1] exI [of _ w2]) simp
qed

theorem teardown_once_safe_witness:
  "savedCompareItems (objects freshShell 0) = None \<and> savedRedisplay (objects freshShell 0) = None
   \<and> unpatchShell 0 freshShell
        = logMessage ''Unpatched redisplay'' (logMessage ''Unpatched item comparison'' freshShell)
   \<and> running 0 (enable freshShell)
   \<and> (\<exists>w1 w2. disconnectListeners 0 (enable freshShell) = Inr w1 \<and> connections w1 = []
         \<and> timeouts w1 = [] \<and> disable (enable freshShell) = Inr w2 \<and> quiet w2
         \<and> raised (disconnectListeners 0 w1) \<noteq> None)"
proof -
  have u: "savedCompareItems (objects freshShell 0) = None \<and> savedRedisplay (objects freshShell 0) = None"
    by code_simp
  have r: "running 0 (enable freshShell)" by code_simp
  have s: "raisesOnStaleHandler (enable freshShell) Overview" by code_simp
  from teardown_once_safe [of freshShell 0 0 "enable freshShell"] u r s
  show ?thesis by auto
qed

section \<open>Between enable and disable\<close>

lemma started_running:
  assumes "quiet w0" and "list_all hostEvent es"
  shows "\<exists>w. run (Enable # es) w0 = Inr w \<and> runningAt (nextObject w0) (nextHandlerId w0) w"
proof -
  from assms(1) have "runningAt (nextObject w0) (nextHandlerId w0) (enable w0)"
    by (rule runningAt_enable)
  from run_running [OF this assms(2)] show ?thesis by (simp add: andThen_def)
qed

text \<open>
  C4. \<open>startListeners\<close> makes seven connections and \<open>disconnectListeners\<close> removes
  these seven: whatever happened between \<open>enable\<close> and \<open>disable\<close>, after \<open>disable\<close>
  the host holds no connection and no timeout source of the extension, so every later
  signal, settings change or timeout does what the host does by itself and nothing else;
  no method of the controller runs and no state of it changes.
\<close>

theorem no_handler_after_disable:
  assumes "quiet w0" and "list_all hostEvent es"
  shows "connections (startListeners a v) = connections v @ listenersOf a (nextHandlerId v)
    \<and> (\<exists>w1 w2. run (Enable # es) w0 = Inr w1
          \<and> connections w1 = listenersOf (nextObject w0) (nextHandlerId w0)
          \<and> disable w1 = Inr w2 \<and> run (Enable # es @ [Disable]) w0 = Inr w2
          \<and> gridReorder w2 = None \<and> connections w2 = [] \<and> timeouts w2 = []
          \<and> (\<forall>ev. emit ev w2 = w2) \<and> (\<forall>i. dispatchTimeout i w2 = w2)
          \<and> (\<forall>e. hostEvent e \<longrightarrow> step e w2 = Inr (hostWrite e w2))
          \<and> (\<forall>es'. list_all hostEvent es' \<longrightarrow> run es' w2 = Inr (fold hostWrite es' w2)))"
proof
  show "connections (startListeners a v) = connections v @ listenersOf a (nextHandlerId v)"
    by (simp add: startListeners_eq logMessage_def)
next
  from started_running [OF assms] obtain w1 where
    w1: "run (Enable # es) w0 = Inr w1" "runningAt (nextObject w0) (nextHandlerId w0) w1"
    by blast
  obtain w2 where w2: "disable w1 = Inr w2" using disable_running [OF w1(2)] by simp
  with w1(2) have q: "quiet w2" by (rule quiet_disable)
  have all: "run (Enable # es @ [Disable]) w0 = Inr w2"
  proof -
    have "run (es @ [Disable]) w = andThen (run es w) disable" for w
      by (induction es arbitrary: w) (simp_all add: andThen_def split: sum.splits)
    with w1(1) w2 show ?thesis by (simp add: andThen_def)
  qed
  have c: "connections w1 = listenersOf (nextObject w0) (nextHandlerId w0)"
    using w1(2) by (simp add: runningAt_def)
  from q have f: "gridReorder w2 = None" "connections w2 = []" "timeouts w2 = []"
    by (simp_all add: quiet_def)
  show "\<exists>w1 w2. run (Enable # es) w0 = Inr w1
          \<and> connections w1 = listenersOf (nextObject w0) (nextHandlerId w0)
          \<and> disable w1 = Inr w2 \<and> run (Enable # es @ [Disable]) w0 = Inr w2
          \<and> gridReorder w2 = None \<and> connections w2 = [] \<and> timeouts w2 = []
          \<and> (\<forall>ev. emit ev w2 = w2) \<and> (\<forall>i. dispatchTimeout i w2 = w2)
          \<and> (\<forall>e. hostEvent e \<longrightarrow> step e w2 = Inr (hostWrite e w2))
          \<and> (\<forall>es'. list_all hostEvent es' \<longrightarrow> run es' w2 = Inr (fold hostWrite es' w2))"
    using w1(1) c w2 all f q
    by (intro exI [of _ w1] exI [of _ w2])
      (simp add: emit_quiet dispatchTimeout_quiet step_quiet run_quiet)
qed

theorem no_handler_after_disable_witness:
  "quiet freshShell
   \<and> list_all hostEvent [Emit ItemDragEnd, Timeout 1, SetStateValue 2]
   \<and> (\<exists>w2. run (Enable # [Emit ItemDragEnd, Timeout 1, SetStateValue 2] @ [Disable]) freshShell
             = Inr w2
         \<and> connections w2 = [] \<and> timeouts w2 = []
         \<and> emit (Changed ShellSchema ''favorite-apps'') w2 = w2
         \<and> step (Emit InstalledChanged) w2 = Inr w2
         \<and> run [Emit ItemDragEnd, SetStateValue 2] w2 = Inr (w2\<lparr>stateValue := 2\<rparr>))"
proof -
  have q: "quiet freshShell" by code_simp
  have h: "list_all hostEvent [Emit ItemDragEnd, Timeout 1, SetStateValue 2]" by simp
  have h': "hostEvent (Emit InstalledChanged)" "list_all hostEvent [Emit ItemDragEnd, SetStateValue 2]"
    by simp_all
  from no_handler_after_disable [OF q h, of 0 freshShell] obtain w2 where
    w2: "run (Enable # [Emit ItemDragEnd, Timeout 1, SetStateValue 2] @ [Disable]) freshShell = Inr w2"
      "connections w2 = []" "timeouts w2 = []" "\<forall>ev. emit ev w2 = w2"
      "\<forall>e. hostEvent e \<longrightarrow> step e w2 = Inr (hostWrite e w2)"
      "\<forall>es'. list_all hostEvent es' \<longrightarrow> run es' w2 = Inr (fold hostWrite es' w2)"
    by blast
  from w2(5) [rule_format, OF h'(1)]
  have s: "step (Emit InstalledChanged) w2 = Inr w2" by (simp del: step.simps)
  from w2(6) [rule_format, OF h'(2)]
  have r: "run [Emit ItemDragEnd, SetStateValue 2] w2 = Inr (w2\<lparr>stateValue := 2\<rparr>)"
    by (simp del: run.simps)
  from q h w2(1-4) s r show ?thesis by blast
qed

section \<open>Reorder on display\<close>

lemma emit_NotifyValue:
  assumes "connections w = listenersOf a n"
  shows "emit NotifyValue w = runCallback (ReorderOnDisplayCallback a) w"
  using assms by (simp add: emit_def listenersOf_def)

text \<open>
  C9. The handler of \<open>notify::value\<close> is connected once, by \<open>enable\<close>, and stays
  connected until \<open>disable\<close>: after any run of host events, earlier openings of the app
  grid among them, a notification with the value \<open>APP_GRID\<close> calls \<open>reorderGrid\<close>
  (which starts a reorder when the lock is free and the host is not updating pages), and
  a notification with any other value changes nothing but the value.
\<close>

theorem reorderOnDisplay_recurring:
  assumes "quiet w0" and "list_all hostEvent es"
  shows "\<exists>w a. run (Enable # es) w0 = Inr w \<and> gridReorder w = Some a
    \<and> step (SetStateValue APP_GRID) w
        = Inr (reorderGrid a ''App grid opened, triggering reorder'' (w\<lparr>stateValue := APP_GRID\<rparr>))
    \<and> (\<forall>v. v \<noteq> APP_GRID \<longrightarrow> step (SetStateValue v) w = Inr (w\<lparr>stateValue := v\<rparr>))
    \<and> (\<not> currentlyUpdating (objects w a) \<and> \<not> updatingPages w \<longrightarrow>
         (\<exists>w'. step (SetStateValue APP_GRID) w = Inr w' \<and> currentlyUpdating (objects w' a)
            \<and> timeouts w' = pendingOf a (Some (nextSourceId w))))"
proof -
  let ?a = "nextObject w0"
  from started_running [OF assms] obtain w where
    w: "run (Enable # es) w0 = Inr w" "runningAt ?a (nextHandlerId w0) w" by blast
  have c: "connections (w\<lparr>stateValue := v\<rparr>) = listenersOf ?a (nextHandlerId w0)" for v
    using w(2) by (simp add: runningAt_def)
  have s: "step (SetStateValue v) w
      = Inr (runCallback (ReorderOnDisplayCallback ?a) (w\<lparr>stateValue := v\<rparr>))" for v
    using emit_NotifyValue [OF c] by simp
  have g: "gridReorder w = Some ?a" using w(2) by (simp add: runningAt_def)
  have i: "\<not> currentlyUpdating (objects w ?a) \<and> \<not> updatingPages w \<longrightarrow>
      currentlyUpdating (objects
        (reorderGrid ?a ''App grid opened, triggering reorder'' (w\<lparr>stateValue := APP_GRID\<rparr>)) ?a)
      \<and> timeouts (reorderGrid ?a ''App grid opened, triggering reorder'' (w\<lparr>stateValue := APP_GRID\<rparr>))
          = pendingOf ?a (Some (nextSourceId w))"
  proof
    assume idle: "\<not> currentlyUpdating (objects w ?a) \<and> \<not> updatingPages w"
    with w(2) have "timeouts w = []"
      by (cases "reorderGridTimeoutId (objects w ?a)") (simp_all add: runningAt_def pendingOf_def)
    with idle show "currentlyUpdating (objects
        (reorderGrid ?a ''App grid opened, triggering reorder'' (w\<lparr>stateValue := APP_GRID\<rparr>)) ?a)
      \<and> timeouts (reorderGrid ?a ''App grid opened, triggering reorder'' (w\<lparr>stateValue := APP_GRID\<rparr>))
          = pendingOf ?a (Some (nextSourceId w))"
      by (simp add: reorderGrid_idle scheduled_def callReorderFolderContents_def logMessage_def
          pendingOf_def)
  qed
  show ?thesis
    using w(1) g i by (intro exI [of _ w] exI [of _ ?a]) (simp add: s del: step.simps)
qed

theorem reorderOnDisplay_recurring_witness:
  "quiet freshShell
   \<and> list_all hostEvent [Timeout 1, SetStateValue APP_GRID, Timeout 2, SetStateValue 1]
   \<and> (\<exists>w a. run (Enable # [Timeout 1, SetStateValue APP_GRID, Timeout 2, SetStateValue 1]) freshShell
               = Inr w
         \<and> gridReorder w = Some a
         \<and> \<not> currentlyUpdating (objects w a) \<and> \<not> updatingPages w
         \<and> (\<exists>w'. step (SetStateValue APP_GRID) w = Inr w' \<and> currentlyUpdating (objects w' a))
         \<and> step (SetStateValue 1) w = Inr (w\<lparr>stateValue := 1\<rparr>))"
proof -
  let ?es = "[Timeout 1, SetStateValue APP_GRID, Timeout 2, SetStateValue 1]"
  have q: "quiet freshShell" by code_simp
  have h: "list_all hostEvent ?es" by simp
  from reorderOnDisplay_recurring [OF q h] obtain w a where
    w: "run (Enable # ?es) freshShell = Inr w" "gridReorder w = Some a"
      "\<forall>v. v \<noteq> APP_GRID \<longrightarrow> step (SetStateValue v) w = Inr (w\<lparr>stateValue := v\<rparr>)"
      "\<not> currentlyUpdating (objects w a) \<and> \<not> updatingPages w \<longrightarrow>
         (\<exists>w'. step (SetStateValue APP_GRID) w = Inr w' \<and> currentlyUpdating (objects w' a)
            \<and> timeouts w' = pendingOf a (Some (nextSourceId w)))"
    by blast
  have e: "raised (run (Enable # ?es) freshShell) = None"
    "map_sum id gridReorder (run (Enable # ?es) freshShell) = Inr (Some 0)"
    "map_sum id (\<lambda>w. currentlyUpdating (objects w 0)) (run (Enable # ?es) freshShell) = Inr False"
    "map_sum id updatingPages (run (Enable # ?es) freshShell) = Inr False"
    by code_simp+
  from e w(1,2) have idle: "a = 0" "\<not> currentlyUpdating (objects w a)" "\<not> updatingPages w"
    by simp_all
  have "(1::real) \<noteq> APP_GRID" by (simp add: APP_GRID_def)
  with w(3) have s: "step (SetStateValue 1) w = Inr (w\<lparr>stateValue := 1\<rparr>)" by blast
  from w(4) idle obtain w' where
    "step (SetStateValue APP_GRID) w = Inr w' \<and> currentlyUpdating (objects w' a)" by blast
  with q h w(1,2) idle s show ?thesis by blast
qed

section \<open>The patched comparator\<close>

lemma gsettings_logMessage [simp]: "gsettings (logMessage m w) = gsettings w"
  by (simp add: logMessage_def)

lemma compareItemsSlot_logMessage [simp]: "compareItemsSlot (logMessage m w) = compareItemsSlot w"
  by (simp add: logMessage_def)

lemma reorderGrid_reads:
  "gsettings (reorderGrid a t w) = gsettings w
   \<and> compareItemsSlot (reorderGrid a t w) = compareItemsSlot w"
proof (cases "currentlyUpdating (objects w a) \<or> updatingPages w")
  case True
  then show ?thesis by (simp add: reorderGrid_busy)
next
  case False
  then show ?thesis
    by (simp add: reorderGrid_idle scheduled_def callReorderFolderContents_def)
qed

lemma runCallback_reads:
  "gsettings (runCallback cb w) = gsettings w
   \<and> compareItemsSlot (runCallback cb w) = compareItemsSlot w"
  by (cases cb) (simp_all add: reorderGrid_reads)

lemma fold_reads:
  "gsettings (fold (\<lambda>c. runCallback (handler c)) cs w) = gsettings w
   \<and> compareItemsSlot (fold (\<lambda>c. runCallback (handler c)) cs w) = compareItemsSlot w"
  by (induction cs arbitrary: w) (simp_all add: runCallback_reads)

lemma emit_reads:
  "gsettings (emit ev w) = gsettings w \<and> compareItemsSlot (emit ev w) = compareItemsSlot w"
  by (simp add: emit_def fold_reads)

lemma compareItemsSlot_patchShell: "compareItemsSlot (patchShell a w) = PatchedCompareItems"
  by (simp add: patchShell_def overrideCompareItems_def overrideRedisplay_def thisUpdate_def
      Let_def logMessage_def)

text \<open>
  C8. The comparator that \<open>patchShell\<close> installs holds no copy of the settings: each call
  reads \<open>folder-order-position\<close> and \<open>folder-children\<close> from the store. After a write
  to either key, with the change signal delivered to whoever listens, the next comparison
  goes by the new value, and the slot still holds the comparator installed before.
\<close>

theorem patched_comparator_reads_settings:
  assumes "compareItemsSlot w = PatchedCompareItems"
  shows "compareItemsSlot (patchShell a v) = PatchedCompareItems
    \<and> callCompareItems w x y
        = compareItems x y (positionOfString (folder_order_position (gsettings w)))
            (folder_children (gsettings w))
    \<and> (\<exists>w'. step (SetFolderOrderPosition p) w = Inr w'
          \<and> compareItemsSlot w' = PatchedCompareItems
          \<and> callCompareItems w' x y
              = compareItems x y (positionOfString p) (folder_children (gsettings w)))
    \<and> (\<exists>w'. step (SetFolderChildren ids) w = Inr w'
          \<and> compareItemsSlot w' = PatchedCompareItems
          \<and> callCompareItems w' x y
              = compareItems x y (positionOfString (folder_order_position (gsettings w))) ids)"
  using assms
  by (simp add: compareItemsSlot_patchShell callCompareItems_def patchedCompareItems_def
      emit_reads)

theorem patched_comparator_reads_settings_witness:
  "compareItemsSlot (enable freshShell) = PatchedCompareItems
   \<and> callCompareItems (enable freshShell) zedFolder appleApp
       = compareItems zedFolder appleApp First [''Utilities'']
   \<and> (\<exists>w'. step (SetFolderOrderPosition ''bottom'') (enable freshShell) = Inr w'
         \<and> callCompareItems w' zedFolder appleApp
             = compareItems zedFolder appleApp Last [''Utilities''])"
proof -
  have p: "compareItemsSlot (enable freshShell) = PatchedCompareItems" by code_simp
  have g: "folder_order_position (gsettings (enable freshShell)) = ''top''"
    "folder_children (gsettings (enable freshShell)) = [''Utilities'']" by code_simp+
  from patched_comparator_reads_settings [OF p, of 0 freshShell zedFolder appleApp "''bottom''" "[]"]
    p g show ?thesis by (auto simp add: positionOfString_def)
qed

section \<open>After disable\<close>

lemma keeps_refl [simp]: "keeps a w w"
  by (simp add: keeps_def)

lemma keeps_trans: "keeps a w w1 \<Longrightarrow> keeps a w1 w2 \<Longrightarrow> keeps a w w2"
  by (simp add: keeps_def)

lemma keeps_reorderGrid:
  assumes "a \<noteq> b"
  shows "keeps a w (reorderGrid b t w)"
proof (cases "currentlyUpdating (objects w b) \<or> updatingPages w")
  case True
  then show ?thesis by (simp add: reorderGrid_busy)
next
  case False
  then show ?thesis using assms
    by (simp add: reorderGrid_idle keeps_def scheduled_def callReorderFolderContents_def
        logMessage_def)
qed

lemma keeps_runCallback:
  assumes "a \<noteq> b" and "callbackThis cb = b"
  shows "keeps a w (runCallback cb w)"
proof -
  have l: "keeps a w (w\<lparr>loggingEnabled := x\<rparr>)" for x by (simp add: keeps_def)
  show ?thesis
    using assms keeps_reorderGrid [OF assms(1)]
      keeps_trans [OF l keeps_reorderGrid [OF assms(1)]]
    by (cases cb) simp_all
qed

lemma keeps_fold:
  assumes "a \<noteq> b" and "list_all (\<lambda>c. callbackThis (handler c) = b) cs"
  shows "keeps a w (fold (\<lambda>c. runCallback (handler c)) cs w)"
  using assms(2)
proof (induction cs arbitrary: w)
  case Nil
  then show ?case by simp
next
  case (Cons c cs)
  then have "keeps a w (runCallback (handler c) w)"
    using keeps_runCallback [OF assms(1)] by simp
  moreover from Cons have
    "keeps a (runCallback (handler c) w)
       (fold (\<lambda>c. runCallback (handler c)) cs (runCallback (handler c) w))" by simp
  ultimately show ?case by (simp add: keeps_trans)
qed

lemma keeps_emit:
  assumes "a \<noteq> b" and "runningAt b n w"
  shows "keeps a w (emit ev w)"
proof -
  from assms(2) have "connections w = listenersOf b n" by (simp add: runningAt_def)
  then have "list_all (\<lambda>c. callbackThis (handler c) = b) (filter (listensTo ev) (connections w))"
    by (simp add: list_all_filter listenersOf_this)
  from keeps_fold [OF assms(1) this] show ?thesis by (simp add: emit_def)
qed

lemma keeps_dispatchTimeout:
  assumes "a \<noteq> b" and "runningAt b n w"
  shows "keeps a w (dispatchTimeout i w)"
proof (cases "reorderGridTimeoutId (objects w b) = Some i")
  case True
  with assms(2) have "timeouts w = pendingOf b (Some i)" by (simp add: runningAt_def)
  then show ?thesis using assms(1)
    by (simp add: dispatchTimeout_pending keeps_def released_def redisplay_def
        reloadAppGrid_def split: redisplayImpl.splits)
next
  case False
  with assms(2) have "list_all (\<lambda>t. sourceId t \<noteq> i) (timeouts w)"
    by (cases "reorderGridTimeoutId (objects w b)") (simp_all add: runningAt_def pendingOf_def)
  then show ?thesis by (simp add: dispatchTimeout_none)
qed

lemma keeps_hostWrite [simp]: "keeps a w (hostWrite e w)"
  by (cases e) (simp_all add: keeps_def)

lemma runningAt_step_keeps:
  assumes "runningAt b n w" and "hostEvent e" and "a \<noteq> b"
  shows "\<exists>w'. step e w = Inr w' \<and> runningAt b n w' \<and> keeps a w w'"
proof -
  have r: "runningAt b n (hostWrite e w)" using assms(1) by simp
  have k: "keeps a w (emit ev (hostWrite e w))" for ev
    using keeps_trans [OF keeps_hostWrite keeps_emit [OF assms(3) r]] .
  from step_running [OF assms(1,2)] obtain w' where
    w': "step e w = Inr w'" "runningAt b n w'" by blast
  have "keeps a w w'"
    using w'(1) k assms(2) keeps_emit [OF assms(3,1)] keeps_dispatchTimeout [OF assms(3,1)]
    by (cases e) (auto simp add: keeps_def)
  with w' show ?thesis by blast
qed

lemma gridReorder_hostWrite [simp]: "gridReorder (hostWrite e w) = gridReorder w"
  by (cases e) simp_all

lemma started_keeps:
  assumes "a < nextObject w"
  shows "objects (startListeners (nextObject w)
            (patchShell (nextObject w) (redisplay (constructed w)))) a = objects w a
    \<and> nextObject (startListeners (nextObject w)
            (patchShell (nextObject w) (redisplay (constructed w)))) = Suc (nextObject w)"
  using assms
  by (simp add: startListeners_eq patchShell_def overrideCompareItems_def overrideRedisplay_def
      thisUpdate_def logMessage_def redisplay_def reloadAppGrid_def constructed_def Let_def
      split: redisplayImpl.splits)

lemma enable_keeps:
  assumes "a < nextObject w"
  shows "objects (enable w) a = objects w a \<and> nextObject (enable w) = Suc (nextObject w)"
proof -
  from assms have "a \<noteq> nextObject w" by simp
  from keeps_reorderGrid [OF this] started_keeps [OF assms]
  show ?thesis by (simp add: enable_eq keeps_def)
qed

lemma disable_keeps:
  assumes "runningAt b n w" and "a \<noteq> b" and "disable w = Inr w'"
  shows "objects w' a = objects w a \<and> nextObject w' = nextObject w \<and> gridReorder w' = None"
  using assms
  by (auto simp add: disable_running restored_def logMessage_def detached_def)

lemma step_retired:
  assumes "consistent w" and "retired a w" and "alternates (gridReorder w \<noteq> None) (e # es)"
  shows "\<exists>w'. step e w = Inr w' \<and> consistent w' \<and> retired a w'
           \<and> objects w' a = objects w a \<and> alternates (gridReorder w' \<noteq> None) es"
proof (cases "gridReorder w")
  case None
  with assms(1) have q: "quiet w" by (simp add: consistent_def)
  from assms(2) have a: "a < nextObject w" by (simp add: retired_def)
  show ?thesis
  proof (cases "e = Enable")
    case True
    from runningAt_enable [OF q] have r: "runningAt (nextObject w) (nextHandlerId w) (enable w)" .
    then have g: "gridReorder (enable w) = Some (nextObject w)" by (simp add: runningAt_def)
    from r g have c: "consistent (enable w)" by (auto simp add: consistent_def running_iff)
    from enable_keeps [OF a] a g have "retired a (enable w)" "objects (enable w) a = objects w a"
      by (simp_all add: retired_def)
    with c g True assms(3) None show ?thesis by simp
  next
    case False
    with assms(3) None have h: "hostEvent e" "alternates False es" by (cases e; simp)+
    from step_quiet [OF q h(1)] have s: "step e w = Inr (hostWrite e w)" .
    have "consistent (hostWrite e w)" using q None by (simp add: consistent_def)
    moreover have "retired a (hostWrite e w)" "objects (hostWrite e w) a = objects w a"
      using assms(2) keeps_hostWrite [of a w e] by (simp_all add: retired_def keeps_def)
    ultimately show ?thesis using s h(2) None by simp
  qed
next
  case (Some b)
  with assms(1) obtain n where n: "runningAt b n w"
    by (auto simp add: consistent_def running_iff)
  from assms(2) Some have ab: "a \<noteq> b" "a < nextObject w" by (auto simp add: retired_def)
  show ?thesis
  proof (cases "e = Enable")
    case True
    with assms(3) Some show ?thesis by simp
  next
    case notEnable: False
    show ?thesis
    proof (cases "e = Disable")
      case True
      obtain w' where w': "disable w = Inr w'" using disable_running [OF n] by simp
      with n have q: "quiet w'" by (rule quiet_disable)
      from disable_keeps [OF n ab(1) w'] have k: "objects w' a = objects w a"
        "nextObject w' = nextObject w" "gridReorder w' = None" by simp_all
      from q k(3) have "consistent w'" by (simp add: consistent_def)
      moreover from k ab(2) have "retired a w'" by (simp add: retired_def)
      ultimately show ?thesis using True w' k assms(3) Some by simp
    next
      case False
      with notEnable assms(3) Some have h: "hostEvent e" "alternates True es" by (cases e; simp)+
      from runningAt_step_keeps [OF n h(1) ab(1)] obtain w' where
        w': "step e w = Inr w'" "runningAt b n w'" "keeps a w w'" by blast
      from w'(2) have g: "gridReorder w' = Some b" by (simp add: runningAt_def)
      with w'(2) have "consistent w'" by (auto simp add: consistent_def running_iff)
      moreover from w'(3) ab g have "retired a w'" "objects w' a = objects w a"
        by (simp_all add: retired_def keeps_def)
      ultimately show ?thesis using w'(1) g h(2) by simp
    qed
  qed
qed

lemma run_retired:
  assumes "consistent w" and "retired a w" and "alternates (gridReorder w \<noteq> None) es"
  shows "\<exists>w'. run es w = Inr w' \<and> consistent w' \<and> retired a w' \<and> objects w' a = objects w a"
  using assms
proof (induction es arbitrary: w)
  case Nil
  then show ?case by simp
next
  case (Cons e es)
  from step_retired [OF Cons.prems] obtain w1 where
    w1: "step e w = Inr w1" "consistent w1" "retired a w1" "objects w1 a = objects w a"
      "alternates (gridReorder w1 \<noteq> None) es" by blast
  from Cons.IH [OF w1(2,3,5)] w1(1,4) show ?case by (auto simp add: andThen_def)
qed

lemma consistent_timeouts:
  assumes "consistent w" and "retired a w"
  shows "list_all (\<lambda>t. onTimeout t \<noteq> ReorderGridTimeout a) (timeouts w)"
proof (cases "gridReorder w")
  case None
  with assms(1) show ?thesis by (simp add: consistent_def quiet_def)
next
  case (Some b)
  with assms(1) obtain n where n: "runningAt b n w"
    by (auto simp add: consistent_def running_iff)
  from assms(2) Some have "a \<noteq> b" by (auto simp add: retired_def)
  with n show ?thesis
    by (cases "reorderGridTimeoutId (objects w b)") (simp_all add: runningAt_def pendingOf_def)
qed

lemma fold_hostWrite_keeps:
  "gridReloads (fold hostWrite es w) = gridReloads w
   \<and> hostRedisplays (fold hostWrite es w) = hostRedisplays w
   \<and> folders (fold hostWrite es w) = folders w
   \<and> objects (fold hostWrite es w) = objects w
   \<and> journal (fold hostWrite es w) = journal w"
proof (induction es arbitrary: w)
  case Nil
  then show ?case by simp
next
  case (Cons e es)
  have "gridReloads (hostWrite e w) = gridReloads w
   \<and> hostRedisplays (hostWrite e w) = hostRedisplays w
   \<and> folders (hostWrite e w) = folders w
   \<and> objects (hostWrite e w) = objects w
   \<and> journal (hostWrite e w) = journal w"
    by (cases e) simp_all
  with Cons.IH [of "hostWrite e w"] show ?case by simp
qed

text \<open>
  C10. When \<open>disable\<close> runs while a reorder is in flight, \<open>disconnectListeners\<close>
  removes the pending timeout source. The callback of that source never runs: firing the
  old id does nothing, no later host event redisplays the grid, and however the host goes
  on, enabling and disabling the extension again included, no timeout source calls back
  into the old controller and its fields stay as \<open>disable\<close> left them, the lock taken.
  The folder contents sorted when the reorder began stay as they are.
\<close>

theorem disable_cancels_pending_redisplay:
  assumes "running a w" and "reorderGridTimeoutId (objects w a) = Some i"
  shows "\<exists>w'. disable w = Inr w' \<and> timeouts w' = [] \<and> dispatchTimeout i w' = w'
    \<and> folders w' = folders w \<and> gridReloads w' = gridReloads w
    \<and> hostRedisplays w' = hostRedisplays w
    \<and> currentlyUpdating (objects w' a)
    \<and> (\<forall>es. list_all hostEvent es \<longrightarrow>
          (\<exists>w''. run es w' = Inr w'' \<and> gridReloads w'' = gridReloads w
             \<and> hostRedisplays w'' = hostRedisplays w \<and> folders w'' = folders w
             \<and> objects w'' = objects w' \<and> timeouts w'' = []))
    \<and> (\<forall>es. alternates False es \<longrightarrow>
          (\<exists>w''. run es w' = Inr w'' \<and> objects w'' a = objects w' a
             \<and> list_all (\<lambda>t. onTimeout t \<noteq> ReorderGridTimeout a) (timeouts w'')))"
proof -
  from assms(1) obtain n where n: "runningAt a n w" by (auto simp add: running_iff)
  define w' where "w' = (logMessage ''Unpatched redisplay''
      (logMessage ''Unpatched item comparison''
        (restored a (logMessage ''Disconnected from listeners'' (detached w)))))
      \<lparr>gridReorder := None\<rparr>"
  have d: "disable w = Inr w'" unfolding w'_def using n by (rule disable_running)
  with n have q: "quiet w'" by (rule quiet_disable)
  from n assms(2) have b: "currentlyUpdating (objects w a)" by (simp add: runningAt_def)
  have f: "folders w' = folders w" "gridReloads w' = gridReloads w"
    "hostRedisplays w' = hostRedisplays w" "currentlyUpdating (objects w' a)"
    using b by (simp_all add: w'_def logMessage_def restored_def detached_def)
  from q have t: "timeouts w' = []" and g: "gridReorder w' = None" by (simp_all add: quiet_def)
  have later: "\<exists>w''. run es w' = Inr w'' \<and> gridReloads w'' = gridReloads w
             \<and> hostRedisplays w'' = hostRedisplays w \<and> folders w'' = folders w
             \<and> objects w'' = objects w' \<and> timeouts w'' = []"
    if "list_all hostEvent es" for es
  proof -
    from run_quiet [OF q that] have r: "run es w' = Inr (fold hostWrite es w')"
      "quiet (fold hostWrite es w')" by simp_all
    from r(2) have "timeouts (fold hostWrite es w') = []" by (simp add: quiet_def)
    with r(1) f fold_hostWrite_keeps [of es w'] show ?thesis by simp
  qed
  have c: "consistent w'" using q g by (simp add: consistent_def)
  have "nextObject w' = nextObject w" by (simp add: w'_def logMessage_def restored_def detached_def)
  with n g have ret: "retired a w'" by (simp add: retired_def runningAt_def)
  have again: "\<exists>w''. run es w' = Inr w'' \<and> objects w'' a = objects w' a
             \<and> list_all (\<lambda>t. onTimeout t \<noteq> ReorderGridTimeout a) (timeouts w'')"
    if "alternates False es" for es
  proof -
    from that g have "alternates (gridReorder w' \<noteq> None) es" by simp
    from run_retired [OF c ret this] obtain w'' where
      w'': "run es w' = Inr w''" "consistent w''" "retired a w''" "objects w'' a = objects w' a"
      by blast
    from consistent_timeouts [OF w''(2,3)] w''(1,4) show ?thesis by simp
  qed
  show ?thesis
    using d t f later again
    by (intro exI [of _ w']) (simp add: dispatchTimeout_quiet)
qed

theorem disable_cancels_pending_redisplay_witness:
  "running 0 (enable freshShell)
   \<and> reorderGridTimeoutId (objects (enable freshShell) 0) = Some 1
   \<and> folderSorts (enable freshShell) = 1
   \<and> list_all hostEvent [Timeout 1, Emit ItemDragEnd, SetStateValue APP_GRID]
   \<and> alternates False [Timeout 1, Enable, Timeout 1, Timeout 2, Disable]
   \<and> (\<exists>w' w'' w3. disable (enable freshShell) = Inr w' \<and> timeouts w' = []
         \<and> dispatchTimeout 1 w' = w' \<and> folders w' = folders (enable freshShell)
         \<and> run [Timeout 1, Emit ItemDragEnd, SetStateValue APP_GRID] w' = Inr w''
         \<and> gridReloads w'' = gridReloads (enable freshShell)
         \<and> run [Timeout 1, Enable, Timeout 1, Timeout 2, Disable] w' = Inr w3
         \<and> objects w3 0 = objects w' 0 \<and> currentlyUpdating (objects w3 0))"
proof -
  have r: "running 0 (enable freshShell)" by code_simp
  have i: "reorderGridTimeoutId (objects (enable freshShell) 0) = Some 1" by code_simp
  have s: "folderSorts (enable freshShell) = 1" by code_simp
  have h: "list_all hostEvent [Timeout 1, Emit ItemDragEnd, SetStateValue APP_GRID]" by simp
  have l: "alternates False [Timeout 1, Enable, Timeout 1, Timeout 2, Disable]" by simp
  from disable_cancels_pending_redisplay [OF r i] obtain w' where
    w': "disable (enable freshShell) = Inr w'" "timeouts w' = []" "dispatchTimeout 1 w' = w'"
      "folders w' = folders (enable freshShell)" "currentlyUpdating (objects w' 0)"
      "\<forall>es. list_all hostEvent es \<longrightarrow>
          (\<exists>w''. run es w' = Inr w'' \<and> gridReloads w'' = gridReloads (enable freshShell)
             \<and> hostRedisplays w'' = hostRedisplays (enable freshShell)
             \<and> folders w'' = folders (enable freshShell)
             \<and> objects w'' = objects w' \<and> timeouts w'' = [])"
      "\<forall>es. alternates False es \<longrightarrow>
          (\<exists>w''. run es w' = Inr w'' \<and> objects w'' 0 = objects w' 0
             \<and> list_all (\<lambda>t. onTimeout t \<noteq> ReorderGridTimeout 0) (timeouts w''))"
    by blast
  from w'(6) [rule_format, OF h] obtain w'' where
    w'': "run [Timeout 1, Emit ItemDragEnd, SetStateValue APP_GRID] w' = Inr w''"
    "gridReloads w'' = gridReloads (enable freshShell)" by blast
  from w'(7) [rule_format, OF l] obtain w3 where
    w3: "run [Timeout 1, Enable, Timeout 1, Timeout 2, Disable] w' = Inr w3"
    "objects w3 0 = objects w' 0" by blast
  from w3(2) w'(5) have "currentlyUpdating (objects w3 0)" by simp
  with r i s h l w'(1-4) w'' w3 show ?thesis by blast
qed

end
